theory Spec2Isabelle
  imports Complex_Main
begin

section \<open>Strings of the page\<close>

text \<open>
  A JavaScript string is modelled as a \<^typ>\<open>string\<close> whose characters are the code units
  below 256 (the Latin-1 block). The functions of this section are the built-ins of
  \<^verbatim>\<open>String.prototype\<close> that the detector calls, restricted to that range.
\<close>

definition code :: "char \<Rightarrow> nat" where
  "code c = of_char c"

text \<open>
  White space of \<^verbatim>\<open>trim()\<close> and of the class \<^verbatim>\<open>\s\<close>: tab, line feed, vertical tab, form
  feed, carriage return, space and no-break space are the members below 256.
\<close>

definition is_ws :: "char \<Rightarrow> bool" where
  "is_ws c = (code c \<in> {9, 10, 11, 12, 13, 32, 160})"

definition in_range :: "char \<Rightarrow> char \<Rightarrow> char \<Rightarrow> bool" where
  "in_range lo hi c = (code lo \<le> code c \<and> code c \<le> code hi)"

text \<open>
  Letters with a partner of the other case below 256: the ASCII letters and the accented
  letters 192..222 and 224..254, the signs 215 and 247 apart.
\<close>

definition is_upper :: "char \<Rightarrow> bool" where
  "is_upper c = (in_range CHR ''A'' CHR ''Z'' c
     \<or> (192 \<le> code c \<and> code c \<le> 222 \<and> code c \<noteq> 215))"

definition is_lower :: "char \<Rightarrow> bool" where
  "is_lower c = (in_range CHR ''a'' CHR ''z'' c
     \<or> (224 \<le> code c \<and> code c \<le> 254 \<and> code c \<noteq> 247))"

definition lower_char :: "char \<Rightarrow> char" where
  "lower_char c = (if is_upper c then char_of (code c + 32) else c)"

definition upper_char :: "char \<Rightarrow> char" where
  "upper_char c = (if is_lower c then char_of (code c - 32) else c)"

definition toLowerCase :: "string \<Rightarrow> string" where
  "toLowerCase s = map lower_char s"

text \<open>
  \<^verbatim>\<open>toUpperCase()\<close>: the sharp s (223) becomes two letters. The capitals of 181 and 255 lie
  above 255; the model leaves these two characters as they are. The detector calls
  \<^verbatim>\<open>toUpperCase\<close> on the first character of a host name only.
\<close>

definition toUpperCase :: "string \<Rightarrow> string" where
  "toUpperCase s = concat (map (\<lambda>c. if code c = 223 then ''SS'' else [upper_char c]) s)"

text \<open>\<^verbatim>\<open>s.includes(t)\<close>: \<open>t\<close> occurs in \<open>s\<close> as a contiguous run.\<close>

fun str_includes :: "string \<Rightarrow> string \<Rightarrow> bool" where
  "str_includes [] t = (t = [])"
| "str_includes (c # cs) t = (take (length t) (c # cs) = t \<or> str_includes cs t)"

text \<open>\<^verbatim>\<open>s.split(sep)\<close> for a separator of one character.\<close>

fun split_on :: "char \<Rightarrow> string \<Rightarrow> string list" where
  "split_on sep [] = [[]]"
| "split_on sep (c # cs) =
     (if c = sep then [] # split_on sep cs
      else (case split_on sep cs of [] \<Rightarrow> [[c]] | w # ws \<Rightarrow> (c # w) # ws))"

definition substring :: "string \<Rightarrow> nat \<Rightarrow> nat \<Rightarrow> string" where
  "substring s i j = take (j - i) (drop i s)"

definition trim :: "string \<Rightarrow> string" where
  "trim s = rev (dropWhile is_ws (rev (dropWhile is_ws s)))"

text \<open>\<^verbatim>\<open>s.replace(/\s+/g, ' ')\<close>: every maximal run of white space becomes one space.\<close>

function ws_collapse :: "string \<Rightarrow> string" where
  "ws_collapse [] = []"
| "ws_collapse (c # cs) =
     (if is_ws c then CHR '' '' # ws_collapse (dropWhile is_ws cs)
      else c # ws_collapse cs)"
  by pat_completeness auto
termination
  by (relation "measure length") (auto simp: length_dropWhile_le less_Suc_eq_le)

section \<open>Regular expressions\<close>

text \<open>
  The regular expressions of the detector are terms of \<open>regex\<close>, and \<open>rx\<close> is the
  backtracking matcher of the language definition: a matcher takes a continuation and a
  state and answers with the first end state that the continuation accepts. A state is
  the character before the current position, the text from the position on, the
  position, and the captures so far. No expression of the detector has a capture group
  under a quantifier, so a repetition keeps the captures it meets.
\<close>

datatype regex =
    Lit char
  | Cls "char \<Rightarrow> bool"
  | Seq regex regex
  | Alt regex regex
  | Rep nat "nat option" bool regex
  | Grp nat regex
  | WordB
  | Bol
  | Eol
  | Eps

record mstate =
  prev :: "char option"
  rest :: string
  pos :: nat
  caps :: "nat \<Rightarrow> (nat \<times> nat) option"

type_synonym cont = "mstate \<Rightarrow> mstate option"
type_synonym matcher = "cont \<Rightarrow> mstate \<Rightarrow> mstate option"

text \<open>
  One character against a set of characters. With the flag \<^verbatim>\<open>i\<close> two characters match
  when they canonicalise alike, which below 256 means that they are case partners.
\<close>

definition char_matcher :: "bool \<Rightarrow> (char \<Rightarrow> bool) \<Rightarrow> matcher" where
  "char_matcher ic P k s =
     (case rest s of
        [] \<Rightarrow> None
      | c # cs \<Rightarrow>
          if P c \<or> (ic \<and> (P (upper_char c) \<or> P (lower_char c)))
          then k (s\<lparr>prev := Some c, rest := cs, pos := Suc (pos s)\<rparr>)
          else None)"

text \<open>
  A quantifier \<^verbatim>\<open>{mn,mx}\<close>, greedy or lazy. Once the minimum is reached an iteration that
  consumes nothing is refused, so the first argument, which counts the iterations still
  allowed, never runs out when it starts at the minimum plus the length of the text left
  plus one: every greater count gives the same answer (\<open>rx_repeat_any_fuel\<close> below).
\<close>

fun repeat_matcher :: "nat \<Rightarrow> matcher \<Rightarrow> nat \<Rightarrow> nat option \<Rightarrow> bool \<Rightarrow> matcher" where
  "repeat_matcher 0 m mn mx greedy k s = None"
| "repeat_matcher (Suc fuel) m mn mx greedy k s =
     (if mx = Some 0 then k s
      else
        let d = (\<lambda>y. if mn = 0 \<and> pos y = pos s then None
                     else repeat_matcher fuel m (mn - 1) (map_option (\<lambda>n. n - 1) mx) greedy k y)
        in if mn \<noteq> 0 then m d s
           else if \<not> greedy then (case k s of Some z \<Rightarrow> Some z | None \<Rightarrow> m d s)
           else (case m d s of Some z \<Rightarrow> Some z | None \<Rightarrow> k s))"

definition is_word :: "char \<Rightarrow> bool" where
  "is_word c = (in_range CHR ''a'' CHR ''z'' c \<or> in_range CHR ''A'' CHR ''Z'' c
     \<or> in_range CHR ''0'' CHR ''9'' c \<or> c = CHR ''_'')"

definition at_word_boundary :: "mstate \<Rightarrow> bool" where
  "at_word_boundary s =
     ((case prev s of None \<Rightarrow> False | Some c \<Rightarrow> is_word c)
      \<noteq> (case rest s of [] \<Rightarrow> False | c # cs \<Rightarrow> is_word c))"

primrec rx :: "regex \<Rightarrow> bool \<Rightarrow> matcher" where
  "rx (Lit c) = (\<lambda>ic. char_matcher ic (\<lambda>x. x = c))"
| "rx (Cls P) = (\<lambda>ic. char_matcher ic P)"
| "rx (Seq a b) = (\<lambda>ic k s. rx a ic (rx b ic k) s)"
| "rx (Alt a b) = (\<lambda>ic k s. case rx a ic k s of Some z \<Rightarrow> Some z | None \<Rightarrow> rx b ic k s)"
| "rx (Rep mn mx greedy r) =
     (\<lambda>ic k s. repeat_matcher (Suc (mn + length (rest s))) (rx r ic) mn mx greedy k s)"
| "rx (Grp n r) =
     (\<lambda>ic k s. rx r ic (\<lambda>y. k (y\<lparr>caps := (caps y)(n \<mapsto> (pos s, pos y))\<rparr>)) s)"
| "rx WordB = (\<lambda>ic k s. if at_word_boundary s then k s else None)"
| "rx Bol = (\<lambda>ic k s. if prev s = None then k s else None)"
| "rx Eol = (\<lambda>ic k s. if rest s = [] then k s else None)"
| "rx Eps = (\<lambda>ic k s. k s)"

text \<open>
  \<open>ahead s y\<close>: the state \<open>y\<close> is the state \<open>s\<close> moved forward by some characters of the
  text. A matcher is advancing when its answer depends on its continuation only at
  states ahead of the one it starts from.
\<close>

definition ahead :: "mstate \<Rightarrow> mstate \<Rightarrow> bool" where
  "ahead s y = (\<exists>n \<le> length (rest s). rest y = drop n (rest s) \<and> pos y = pos s + n)"

definition advancing :: "matcher \<Rightarrow> bool" where
  "advancing m = (\<forall>k k' s. (\<forall>y. ahead s y \<longrightarrow> k y = k' y) \<longrightarrow> m k s = m k' s)"

text \<open>
  \<^verbatim>\<open>re.exec(text)\<close> and \<^verbatim>\<open>re.test(text)\<close> on a fresh expression (\<^verbatim>\<open>lastIndex\<close> 0): the start
  positions are tried from the left, the end of the text included. The result is the
  start position and the end state.
\<close>

fun search :: "regex \<Rightarrow> bool \<Rightarrow> mstate \<Rightarrow> nat \<Rightarrow> (nat \<times> mstate) option" where
  "search r ic s 0 = None"
| "search r ic s (Suc n) =
     (case rx r ic Some s of
        Some e \<Rightarrow> Some (pos s, e)
      | None \<Rightarrow>
          (case rest s of
             [] \<Rightarrow> None
           | c # cs \<Rightarrow> search r ic (s\<lparr>prev := Some c, rest := cs, pos := Suc (pos s)\<rparr>) n))"

definition exec :: "regex \<Rightarrow> bool \<Rightarrow> string \<Rightarrow> (nat \<times> mstate) option" where
  "exec r ic s =
     search r ic \<lparr>prev = None, rest = s, pos = 0, caps = (\<lambda>_. None)\<rparr> (Suc (length s))"

definition test :: "regex \<Rightarrow> bool \<Rightarrow> string \<Rightarrow> bool" where
  "test r ic s = (exec r ic s \<noteq> None)"

text \<open>\<^verbatim>\<open>match[0]\<close> and \<^verbatim>\<open>match[n]\<close>; a group that took no part is \<^verbatim>\<open>undefined\<close>.\<close>

definition match0 :: "string \<Rightarrow> nat \<times> mstate \<Rightarrow> string" where
  "match0 s m = substring s (fst m) (pos (snd m))"

definition match_group :: "string \<Rightarrow> nat \<times> mstate \<Rightarrow> nat \<Rightarrow> string option" where
  "match_group s m n = map_option (\<lambda>(i, j). substring s i j) (caps (snd m) n)"

fun lits :: "string \<Rightarrow> regex" where
  "lits [] = Eps"
| "lits [c] = Lit c"
| "lits (c # cs) = Seq (Lit c) (lits cs)"

fun seqs :: "regex list \<Rightarrow> regex" where
  "seqs [] = Eps"
| "seqs [r] = r"
| "seqs (r # rs) = Seq r (seqs rs)"

fun alts :: "regex list \<Rightarrow> regex" where
  "alts [] = Eps"
| "alts [r] = r"
| "alts (r # rs) = Alt r (alts rs)"

definition rx_opt :: "regex \<Rightarrow> regex" where
  "rx_opt r = Rep 0 (Some 1) True r"

definition rx_star :: "regex \<Rightarrow> regex" where
  "rx_star r = Rep 0 None True r"

definition rx_plus :: "regex \<Rightarrow> regex" where
  "rx_plus r = Rep 1 None True r"

definition upperAZ :: regex where
  "upperAZ = Cls (in_range CHR ''A'' CHR ''Z'')"

definition lowerAZ :: regex where
  "lowerAZ = Cls (in_range CHR ''a'' CHR ''z'')"

section \<open>Values of the structured data\<close>

text \<open>
  What \<^verbatim>\<open>JSON.parse\<close> returns. An object is the list of its own properties (keys distinct,
  as the parser leaves them). A number is given by the two things the detector can
  observe of it: whether it differs from zero, and the text that the conversion of the
  number to a string yields.
\<close>

datatype json =
    JNull
  | JBool bool
  | JNum bool string
  | JStr string
  | JArr "json list"
  | JObj "(string \<times> json) list"

datatype js_error = TypeError

text \<open>Truthiness of a value, as \<^verbatim>\<open>if (v)\<close> and \<^verbatim>\<open>!v\<close> test it.\<close>

fun truthy :: "json \<Rightarrow> bool" where
  "truthy JNull = False"
| "truthy (JBool b) = b"
| "truthy (JNum nonzero shown) = nonzero"
| "truthy (JStr s) = (s \<noteq> [])"
| "truthy (JArr xs) = True"
| "truthy (JObj kvs) = True"

text \<open>
  \<^verbatim>\<open>v[key]\<close> and \<^verbatim>\<open>v.key\<close> for the keys the detector reads (\<^verbatim>\<open>@type\<close>, \<^verbatim>\<open>title\<close>, \<^verbatim>\<open>name\<close>,
  \<^verbatim>\<open>address\<close> and so on): reading a property of \<^verbatim>\<open>null\<close> raises, an object answers with
  its own property, and every other value answers \<^verbatim>\<open>undefined\<close>, which is \<open>None\<close>.
\<close>

fun get_prop :: "json \<Rightarrow> string \<Rightarrow> js_error + json option" where
  "get_prop JNull key = Inl TypeError"
| "get_prop (JObj kvs) key = Inr (map_of kvs key)"
| "get_prop v key = Inr None"

definition truthy_opt :: "json option \<Rightarrow> bool" where
  "truthy_opt v = (case v of None \<Rightarrow> False | Some x \<Rightarrow> truthy x)"

definition sequence :: "js_error + 'a \<Rightarrow> ('a \<Rightarrow> js_error + 'b) \<Rightarrow> js_error + 'b" where
  "sequence m f = (case m of Inl e \<Rightarrow> Inl e | Inr x \<Rightarrow> f x)"

text \<open>\<^verbatim>\<open>if (v) { ... }\<close> around a statement that may raise.\<close>

definition when_truthy :: "json option \<Rightarrow> (json \<Rightarrow> js_error + 'a) \<Rightarrow> 'a \<Rightarrow> js_error + 'a" where
  "when_truthy v f dflt =
     (case v of None \<Rightarrow> Inr dflt | Some x \<Rightarrow> if truthy x then f x else Inr dflt)"

text \<open>
  The conversion to a string that \<^verbatim>\<open>Array.prototype.join\<close> applies to its elements. A
  number comes with its text, an array is joined with commas, \<^verbatim>\<open>null\<close> inside an array is
  the empty string, and an object is \<^verbatim>\<open>[object Object]\<close> unless an own property hides
  \<^verbatim>\<open>toString\<close>, in which case the conversion raises.
\<close>

fun to_string :: "json \<Rightarrow> js_error + string"
  and join_items :: "string \<Rightarrow> json list \<Rightarrow> js_error + string" where
  "to_string JNull = Inr ''null''"
| "to_string (JBool b) = Inr (if b then ''true'' else ''false'')"
| "to_string (JNum nonzero shown) = Inr shown"
| "to_string (JStr s) = Inr s"
| "to_string (JArr xs) = join_items '','' xs"
| "to_string (JObj kvs) =
     (if ''toString'' \<in> fst ` set kvs then Inl TypeError else Inr ''[object Object]'')"
| "join_items sep [] = Inr []"
| "join_items sep (x # xs) =
     (case (if x = JNull then Inr [] else to_string x) of
        Inl e \<Rightarrow> Inl e
      | Inr a \<Rightarrow>
          if xs = [] then Inr a
          else (case join_items sep xs of Inl e \<Rightarrow> Inl e | Inr b \<Rightarrow> Inr (a @ sep @ b)))"

section \<open>Field results and the update primitive\<close>

datatype field_key = Company | JobTitle | Location | Description

record field_result =
  fvalue :: string
  fconfidence :: nat
  fsource :: string

type_synonym results = "field_key \<Rightarrow> field_result"

text \<open>
  \<^verbatim>\<open>updateField(results, field, value, confidence, source)\<close>. The value is whatever the
  caller passes: a falsy value returns at once, a truthy value that is not a string has
  no \<^verbatim>\<open>trim\<close> method and the call raises.
\<close>

definition updateField :: "results \<Rightarrow> field_key \<Rightarrow> json \<Rightarrow> nat \<Rightarrow> string \<Rightarrow> js_error + results" where
  "updateField results fld v conf src =
     (if \<not> truthy v then Inr results
      else case v of
        JStr s \<Rightarrow>
          if length (trim s) = 0 then Inr results
          else
            let cleanValue = ws_collapse (trim s) in
            if conf > fconfidence (results fld)
            then Inr (results(fld := \<lparr>fvalue = cleanValue, fconfidence = conf, fsource = src\<rparr>))
            else Inr results
      | _ \<Rightarrow> Inl TypeError)"

section \<open>The document\<close>

text \<open>
  What the detector reads of the page, each read being a field:
  \<^item> \<open>ld_json\<close>: for every \<^verbatim>\<open>script[type="application/ld+json"]\<close> in document order, what
    \<^verbatim>\<open>JSON.parse\<close> makes of its text, \<open>None\<close> when parsing raises;
  \<^item> \<open>meta_tags\<close>: the \<^verbatim>\<open>meta\<close> elements in document order;
  \<^item> \<open>querySelector\<close>: the browser's answer to \<^verbatim>\<open>document.querySelector(sel)\<close> for the
    selectors of the semantic layer;
  \<^item> \<open>aria_labelled\<close>: the elements with an \<^verbatim>\<open>aria-label\<close>, as pairs of the label and the
    text content;
  \<^item> \<open>innerText\<close>: \<^verbatim>\<open>document.body.innerText\<close>;
  \<^item> \<open>headings\<close>: the \<^verbatim>\<open>h1\<close>, \<^verbatim>\<open>h2\<close> and \<^verbatim>\<open>h3\<close> elements in document order, each with
    its text content and with what \<^verbatim>\<open>parseFloat\<close> makes of its computed font size
    (\<open>None\<close> for \<^verbatim>\<open>NaN\<close>, which compares false with everything);
  \<^item> \<open>title\<close> and \<open>hostname\<close>: \<^verbatim>\<open>document.title\<close> and \<^verbatim>\<open>window.location.hostname\<close>.
\<close>

datatype heading_tag = H1 | H2 | H3

record heading =
  tag :: heading_tag
  textContent :: string
  fontSize :: "rat option"

record meta_tag =
  property_attr :: "string option"
  name_attr :: "string option"
  content_attr :: "string option"

datatype query_result = Raises | NoElement | Element string

record document =
  ld_json :: "json option list"
  meta_tags :: "meta_tag list"
  querySelector :: "string \<Rightarrow> query_result"
  aria_labelled :: "(string \<times> string) list"
  innerText :: string
  headings :: "heading list"
  title :: string
  hostname :: string

section \<open>Layer 1: structured data\<close>

text \<open>
  \<^verbatim>\<open>findJobPostingSchema\<close>. The inner loop over the items of one script stands inside the
  \<^verbatim>\<open>try\<close>: an item that is \<^verbatim>\<open>null\<close> raises when its type is read, and the \<^verbatim>\<open>catch\<close> goes on
  with the next script.
\<close>

fun first_job_posting :: "json list \<Rightarrow> js_error + json option" where
  "first_job_posting [] = Inr None"
| "first_job_posting (item # items) =
     (case get_prop item ''@type'' of
        Inl e \<Rightarrow> Inl e
      | Inr t \<Rightarrow>
          if t = Some (JStr ''JobPosting'') then Inr (Some item)
          else first_job_posting items)"

definition items_of :: "json \<Rightarrow> json list" where
  "items_of data = (case data of JArr xs \<Rightarrow> xs | _ \<Rightarrow> [data])"

fun scan_scripts :: "json option list \<Rightarrow> json option" where
  "scan_scripts [] = None"
| "scan_scripts (None # scripts) = scan_scripts scripts"
| "scan_scripts (Some data # scripts) =
     (case first_job_posting (items_of data) of
        Inl e \<Rightarrow> scan_scripts scripts
      | Inr (Some item) \<Rightarrow> Some item
      | Inr None \<Rightarrow> scan_scripts scripts)"

definition findJobPostingSchema :: "document \<Rightarrow> json option" where
  "findJobPostingSchema doc = scan_scripts (ld_json doc)"

definition parseJobLocation :: "json \<Rightarrow> js_error + json option" where
  "parseJobLocation jobLocation =
     (case jobLocation of
        JStr s \<Rightarrow> Inr (Some jobLocation)
      | _ \<Rightarrow>
          sequence (get_prop jobLocation ''address'') (\<lambda>address.
            case address of
              None \<Rightarrow> Inr None
            | Some addr \<Rightarrow>
                if \<not> truthy addr then Inr None
                else (case addr of
                    JStr s \<Rightarrow> Inr (Some addr)
                  | _ \<Rightarrow>
                      sequence (get_prop addr ''addressLocality'') (\<lambda>locality.
                      sequence (get_prop addr ''addressRegion'') (\<lambda>region.
                        let parts = (case locality of None \<Rightarrow> []
                                       | Some l \<Rightarrow> if truthy l then [l] else [])
                                    @ (case region of None \<Rightarrow> []
                                       | Some r \<Rightarrow> if truthy r then [r] else [])
                        in if length parts > 0
                           then sequence (join_items '', '' parts) (\<lambda>joined. Inr (Some (JStr joined)))
                           else sequence (get_prop addr ''addressCountry'') (\<lambda>country.
                                  if truthy_opt country then Inr country else Inr None))))))"

definition getMetaContent :: "document \<Rightarrow> string \<Rightarrow> string option" where
  "getMetaContent doc property =
     (case find (\<lambda>m. property_attr m = Some property \<or> name_attr m = Some property)
                (meta_tags doc) of
        None \<Rightarrow> None
      | Some meta \<Rightarrow> content_attr meta)"

definition nonempty :: "string option \<Rightarrow> bool" where
  "nonempty v = (case v of None \<Rightarrow> False | Some s \<Rightarrow> s \<noteq> [])"

record og_data =
  og_title :: "string option"
  og_siteName :: "string option"
  og_description :: "string option"

definition extractFromOpenGraph :: "document \<Rightarrow> og_data" where
  "extractFromOpenGraph doc =
     \<lparr>og_title = getMetaContent doc ''og:title'',
      og_siteName = getMetaContent doc ''og:site_name'',
      og_description =
        (if nonempty (getMetaContent doc ''og:description'')
         then getMetaContent doc ''og:description''
         else getMetaContent doc ''description'')\<rparr>"

text \<open>
  The value that the job posting offers for a field: \<^verbatim>\<open>hiringOrganization.name\<close> behind
  the test of \<^verbatim>\<open>hiringOrganization\<close>, \<^verbatim>\<open>title\<close>, the parsed \<^verbatim>\<open>jobLocation\<close> behind the
  test of \<^verbatim>\<open>jobLocation\<close>, and \<^verbatim>\<open>description\<close>.
\<close>

definition json_ld_value :: "json \<Rightarrow> field_key \<Rightarrow> js_error + json option" where
  "json_ld_value jsonLdData fld =
     (case fld of
        Company \<Rightarrow>
          sequence (get_prop jsonLdData ''hiringOrganization'') (\<lambda>org.
            when_truthy org (\<lambda>h. get_prop h ''name'') None)
      | JobTitle \<Rightarrow> get_prop jsonLdData ''title''
      | Location \<Rightarrow>
          sequence (get_prop jsonLdData ''jobLocation'') (\<lambda>jl.
            when_truthy jl parseJobLocation None)
      | Description \<Rightarrow> get_prop jsonLdData ''description'')"

definition json_ld_step :: "json \<Rightarrow> results \<Rightarrow> field_key \<Rightarrow> js_error + results" where
  "json_ld_step jsonLdData results fld =
     sequence (json_ld_value jsonLdData fld) (\<lambda>v.
       when_truthy v (\<lambda>x. updateField results fld x 95 ''JSON-LD Schema'') results)"

definition from_json_ld :: "json \<Rightarrow> results \<Rightarrow> js_error + results" where
  "from_json_ld jsonLdData results =
     sequence (json_ld_step jsonLdData results Company) (\<lambda>results.
     sequence (json_ld_step jsonLdData results JobTitle) (\<lambda>results.
     sequence (json_ld_step jsonLdData results Location) (\<lambda>results.
     json_ld_step jsonLdData results Description)))"

text \<open>\<^verbatim>\<open>if (s && results[field].confidence < limit) updateField(...)\<close> for a string or \<^verbatim>\<open>null\<close>.\<close>

definition update_below :: "results \<Rightarrow> field_key \<Rightarrow> string option \<Rightarrow> nat \<Rightarrow> nat \<Rightarrow> string
    \<Rightarrow> js_error + results" where
  "update_below results fld v limit conf src =
     (case v of
        None \<Rightarrow> Inr results
      | Some s \<Rightarrow>
          if s \<noteq> [] \<and> fconfidence (results fld) < limit
          then updateField results fld (JStr s) conf src
          else Inr results)"

definition detectFromStructuredData :: "document \<Rightarrow> results \<Rightarrow> js_error + results" where
  "detectFromStructuredData doc results =
     sequence (case findJobPostingSchema doc of
                 None \<Rightarrow> Inr results
               | Some jsonLdData \<Rightarrow> from_json_ld jsonLdData results) (\<lambda>results.
     let ogData = extractFromOpenGraph doc in
     sequence (update_below results JobTitle (og_title ogData) 85 85 ''OpenGraph Meta'') (\<lambda>results.
     sequence (update_below results Company (og_siteName ogData) 85 85 ''OpenGraph Meta'') (\<lambda>results.
     update_below results Description (og_description ogData) 85 85 ''OpenGraph Meta'')))"

section \<open>Layer 2: semantic HTML\<close>

record site_pattern =
  sp_company :: string
  sp_jobTitle :: string
  sp_location :: string
  sp_description :: string

definition linkedin :: site_pattern where
  \<open>linkedin =
     \<lparr>sp_company = ''.topcard__org-name-link, .top-card-layout__card .topcard__flavor--black-link'',
      sp_jobTitle = ''.topcard__title, .top-card-layout__title'',
      sp_location = ''.topcard__flavor--bullet, .top-card-layout__second-subline'',
      sp_description = ''.show-more-less-html__markup, .description__text''\<rparr>\<close>

definition indeed :: site_pattern where
  \<open>indeed =
     \<lparr>sp_company = ''[data-company-name], .jobsearch-InlineCompanyRating-companyHeader, .icl-u-lg-mr--sm'',
      sp_jobTitle = ''.jobsearch-JobInfoHeader-title, h1.icl-u-xs-mb--xs'',
      sp_location = ''[data-testid="job-location"], .jobsearch-JobInfoHeader-subtitle'',
      sp_description = ''#jobDescriptionText, .jobsearch-jobDescriptionText''\<rparr>\<close>

definition glassdoor :: site_pattern where
  \<open>glassdoor =
     \<lparr>sp_company = ''[data-test="employer-name"], .EmployerProfile_employerName__QvlPJ'',
      sp_jobTitle = ''[data-test="job-title"], .JobDetails_jobTitle__cNuIa'',
      sp_location = ''[data-test="location"], .JobDetails_location__MbnUM'',
      sp_description = ''[data-test="job-description"], .JobDetails_jobDescription__uW_fK''\<rparr>\<close>

text \<open>
  The loop of \<^verbatim>\<open>trySelectors\<close>. The \<^verbatim>\<open>try\<close> holds the query and the update; whatever
  raises there is caught and the loop goes on with the next selector.
\<close>

fun try_selector_list :: "document \<Rightarrow> results \<Rightarrow> field_key \<Rightarrow> string list \<Rightarrow> nat \<Rightarrow> string
    \<Rightarrow> results" where
  "try_selector_list doc results fld [] conf src = results"
| "try_selector_list doc results fld (selector # selectorList) conf src =
     (case querySelector doc selector of
        Raises \<Rightarrow> try_selector_list doc results fld selectorList conf src
      | NoElement \<Rightarrow> try_selector_list doc results fld selectorList conf src
      | Element text \<Rightarrow>
          if trim text \<noteq> [] then
            (case updateField results fld (JStr (trim text)) conf src of
               Inl e \<Rightarrow> try_selector_list doc results fld selectorList conf src
             | Inr results' \<Rightarrow>
                 if fconfidence (results' fld) \<ge> conf then results'
                 else try_selector_list doc results' fld selectorList conf src)
          else try_selector_list doc results fld selectorList conf src)"

definition trySelectors :: "document \<Rightarrow> results \<Rightarrow> field_key \<Rightarrow> string \<Rightarrow> nat \<Rightarrow> string
    \<Rightarrow> results" where
  "trySelectors doc results fld selectors conf src =
     (if fconfidence (results fld) \<ge> conf then results
      else try_selector_list doc results fld (map trim (split_on CHR '','' selectors)) conf src)"

text \<open>The test on the lower-cased label that guards the update of a field.\<close>

definition aria_matches :: "string \<Rightarrow> field_key \<Rightarrow> bool" where
  "aria_matches label fld =
     (case fld of
        Company \<Rightarrow> str_includes label ''company'' \<or> str_includes label ''employer''
      | JobTitle \<Rightarrow> str_includes label ''job'' \<or> str_includes label ''title''
                     \<or> str_includes label ''position''
      | Location \<Rightarrow> str_includes label ''location''
      | Description \<Rightarrow> False)"

definition aria_update :: "results \<Rightarrow> string \<Rightarrow> string \<Rightarrow> field_key \<Rightarrow> js_error + results" where
  "aria_update results label text fld =
     (if aria_matches label fld \<and> fconfidence (results fld) < 70
      then updateField results fld (JStr text) 70 ''ARIA Label''
      else Inr results)"

definition aria_step :: "results \<Rightarrow> string \<times> string \<Rightarrow> js_error + results" where
  "aria_step results el =
     (let label = toLowerCase (fst el); text = trim (snd el) in
      if text = [] then Inr results
      else
        sequence (aria_update results label text Company) (\<lambda>results.
        sequence (aria_update results label text JobTitle) (\<lambda>results.
        aria_update results label text Location)))"

fun aria_loop :: "results \<Rightarrow> (string \<times> string) list \<Rightarrow> js_error + results" where
  "aria_loop results [] = Inr results"
| "aria_loop results (el # els) = sequence (aria_step results el) (\<lambda>results. aria_loop results els)"

definition tryAriaLabels :: "document \<Rightarrow> results \<Rightarrow> js_error + results" where
  "tryAriaLabels doc results = aria_loop results (aria_labelled doc)"

definition site_pattern_of :: "string \<Rightarrow> site_pattern option" where
  "site_pattern_of host =
     (if str_includes host ''linkedin.com'' then Some linkedin
      else if str_includes host ''indeed.com'' then Some indeed
      else if str_includes host ''glassdoor.com'' then Some glassdoor
      else None)"

definition site_selectors :: "site_pattern \<Rightarrow> field_key \<Rightarrow> string" where
  "site_selectors sitePattern fld =
     (case fld of Company \<Rightarrow> sp_company sitePattern | JobTitle \<Rightarrow> sp_jobTitle sitePattern
      | Location \<Rightarrow> sp_location sitePattern | Description \<Rightarrow> sp_description sitePattern)"

definition try_site :: "document \<Rightarrow> site_pattern \<Rightarrow> results \<Rightarrow> results" where
  "try_site doc sitePattern results =
     (let results = trySelectors doc results Company (site_selectors sitePattern Company) 80
                      ''Known Site Pattern'';
          results = trySelectors doc results JobTitle (site_selectors sitePattern JobTitle) 80
                      ''Known Site Pattern'';
          results = trySelectors doc results Location (site_selectors sitePattern Location) 80
                      ''Known Site Pattern''
      in if site_selectors sitePattern Description \<noteq> []
         then trySelectors doc results Description (site_selectors sitePattern Description) 80
                ''Known Site Pattern''
         else results)"

definition generic_selectors :: "field_key \<Rightarrow> string" where
  \<open>generic_selectors fld =
     (case fld of
        Company \<Rightarrow> ''.company-name, [data-company], .hiring-company, .employer-name''
      | JobTitle \<Rightarrow> ''.job-title, [data-job-title], .position-title, h1[class*="title"]''
      | Location \<Rightarrow> ''.location, [data-location], .job-location, .work-location''
      | Description \<Rightarrow>
          ''.job-description, [data-description], .description, .job-details, [class*="description"]'')\<close>

definition generic_confidence :: "field_key \<Rightarrow> nat" where
  "generic_confidence fld = (case fld of Description \<Rightarrow> 70 | _ \<Rightarrow> 75)"

definition try_generic :: "document \<Rightarrow> results \<Rightarrow> results" where
  "try_generic doc results =
     (let results = trySelectors doc results Company (generic_selectors Company)
                      (generic_confidence Company) ''Semantic HTML'';
          results = trySelectors doc results JobTitle (generic_selectors JobTitle)
                      (generic_confidence JobTitle) ''Semantic HTML'';
          results = trySelectors doc results Location (generic_selectors Location)
                      (generic_confidence Location) ''Semantic HTML''
      in trySelectors doc results Description (generic_selectors Description)
           (generic_confidence Description) ''Semantic HTML'')"

definition detectFromSemanticHTML :: "document \<Rightarrow> results \<Rightarrow> js_error + results" where
  "detectFromSemanticHTML doc results =
     (let host = toLowerCase (hostname doc);
          results = (case site_pattern_of host of
                       None \<Rightarrow> results
                     | Some sitePattern \<Rightarrow> try_site doc sitePattern results);
          results = try_generic doc results
      in tryAriaLabels doc results)"

section \<open>Layer 3: text analysis\<close>

text \<open>\<^verbatim>\<open>[A-Za-z0-9\s&.,-]\<close>\<close>

definition company_char :: "char \<Rightarrow> bool" where
  "company_char c = (in_range CHR ''A'' CHR ''Z'' c \<or> in_range CHR ''a'' CHR ''z'' c
     \<or> in_range CHR ''0'' CHR ''9'' c \<or> is_ws c \<or> c \<in> set ''&.,-'')"

text \<open>\<^verbatim>\<open>(Inc\.?|LLC|Ltd\.?|Corp\.?|Corporation|Company)\<close>\<close>

definition company_suffix :: regex where
  "company_suffix =
     alts [Seq (lits ''Inc'') (rx_opt (Lit CHR ''.'')), lits ''LLC'',
           Seq (lits ''Ltd'') (rx_opt (Lit CHR ''.'')),
           Seq (lits ''Corp'') (rx_opt (Lit CHR ''.'')),
           lits ''Corporation'', lits ''Company'']"

text \<open>\<^verbatim>\<open>/(?:at|@)\s+([A-Z][A-Za-z0-9\s&.,-]{2,50})(?:\.|,|\s|$)/g\<close>\<close>

definition atPattern :: regex where
  "atPattern =
     seqs [Alt (lits ''at'') (Lit CHR ''@''), rx_plus (Cls is_ws),
           Grp 1 (Seq upperAZ (Rep 2 (Some 50) True (Cls company_char))),
           alts [Lit CHR ''.'', Lit CHR '','', Cls is_ws, Eol]]"

text \<open>\<^verbatim>\<open>/\b([A-Z][A-Za-z0-9\s&.,-]{2,50}?)\s+(Inc\.?|LLC|Ltd\.?|Corp\.?|Corporation|Company)\b/g\<close>\<close>

definition suffixPattern :: regex where
  "suffixPattern =
     seqs [WordB, Grp 1 (Seq upperAZ (Rep 2 (Some 50) False (Cls company_char))),
           rx_plus (Cls is_ws), Grp 2 company_suffix, WordB]"

text \<open>\<^verbatim>\<open>name.trim().replace(/\s+/g, ' ').replace(/[,.]$/, '')\<close>\<close>

definition drop_final_punct :: "string \<Rightarrow> string" where
  "drop_final_punct s =
     (if s \<noteq> [] \<and> (last s = CHR '','' \<or> last s = CHR ''.'') then butlast s else s)"

definition cleanCompanyName :: "string \<Rightarrow> string" where
  "cleanCompanyName name = drop_final_punct (ws_collapse (trim name))"

text \<open>\<^verbatim>\<open>/\s(the|a|an|is|are|was|were)\s/i\<close>\<close>

definition sentence_word :: regex where
  "sentence_word =
     seqs [Cls is_ws,
           Grp 1 (alts [lits ''the'', lits ''a'', lits ''an'', lits ''is'', lits ''are'',
                        lits ''was'', lits ''were'']),
           Cls is_ws]"

definition looksLikeCompanyName :: "string \<Rightarrow> bool" where
  "looksLikeCompanyName text =
     (if length text < 2 \<or> length text > 50 then False
      else if test (seqs [WordB, Grp 1 company_suffix, WordB]) True text then True
      else if test (Seq Bol upperAZ) False text \<and> \<not> test sentence_word True text then True
      else False)"

definition between :: "rat option \<Rightarrow> rat \<Rightarrow> rat \<Rightarrow> bool" where
  "between fs lo hi = (case fs of None \<Rightarrow> False | Some px \<Rightarrow> px > lo \<and> px < hi)"

definition above :: "rat option \<Rightarrow> rat \<Rightarrow> bool" where
  "above fs lo = (case fs of None \<Rightarrow> False | Some px \<Rightarrow> px > lo)"

definition company_heading :: "heading \<Rightarrow> bool" where
  "company_heading h =
     (let headingText = trim (textContent h) in
      length headingText > 3 \<and> length headingText < 50
      \<and> between (fontSize h) 14 24 \<and> looksLikeCompanyName headingText)"

definition findCompanyName :: "string \<Rightarrow> heading list \<Rightarrow> string option" where
  "findCompanyName text hs =
     (case (case exec atPattern False text of
              None \<Rightarrow> None
            | Some m \<Rightarrow> (case match_group text m 1 of
                           None \<Rightarrow> None
                         | Some g \<Rightarrow> if g \<noteq> [] then Some g else None)) of
        Some g \<Rightarrow> Some (cleanCompanyName g)
      | None \<Rightarrow>
          (case exec suffixPattern False text of
             Some m \<Rightarrow> Some (cleanCompanyName (match0 text m))
           | None \<Rightarrow> map_option (\<lambda>h. trim (textContent h)) (find company_heading hs)))"

definition jobKeywords :: "string list" where
  "jobKeywords =
     [''engineer'', ''developer'', ''designer'', ''manager'', ''analyst'', ''specialist'',
      ''director'', ''coordinator'', ''consultant'', ''architect'', ''lead'', ''senior'',
      ''junior'', ''intern'', ''associate'', ''administrator'', ''technician'', ''officer'']"

definition containsJobKeyword :: "string \<Rightarrow> string list \<Rightarrow> bool" where
  "containsJobKeyword text keywords =
     (let textLower = toLowerCase text in list_ex (\<lambda>keyword. str_includes textLower keyword) keywords)"

definition title_h1 :: "heading \<Rightarrow> bool" where
  "title_h1 h = containsJobKeyword (trim (textContent h)) jobKeywords"

definition title_heading :: "heading \<Rightarrow> bool" where
  "title_heading h =
     (let text = trim (textContent h) in
      length text > 5 \<and> length text < 100 \<and> containsJobKeyword text jobKeywords
      \<and> above (fontSize h) 18)"

text \<open>
  \<^verbatim>\<open>findJobTitle(headings, text)\<close>: the first loop runs over
  \<^verbatim>\<open>document.querySelectorAll('h1')\<close>, the second over the headings it is given.
\<close>

definition findJobTitle :: "document \<Rightarrow> heading list \<Rightarrow> string \<Rightarrow> string option" where
  "findJobTitle doc hs text =
     (let h1Elements = filter (\<lambda>h. tag h = H1) (headings doc) in
      case find title_h1 h1Elements of
        Some h1 \<Rightarrow> Some (trim (textContent h1))
      | None \<Rightarrow> map_option (\<lambda>h. trim (textContent h)) (find title_heading hs))"

text \<open>\<^verbatim>\<open>/\b([A-Z][a-z]+(?:\s[A-Z][a-z]+)*),\s*([A-Z]{2})\b/g\<close>\<close>

definition cityStatePattern :: regex where
  "cityStatePattern =
     seqs [WordB,
           Grp 1 (seqs [upperAZ, rx_plus lowerAZ,
                        rx_star (seqs [Cls is_ws, upperAZ, rx_plus lowerAZ])]),
           Lit CHR '','', rx_star (Cls is_ws),
           Grp 2 (Rep 2 (Some 2) True upperAZ), WordB]"

text \<open>\<^verbatim>\<open>/\b(remote|work from home|wfh)\b/i\<close>\<close>

definition remotePattern :: regex where
  "remotePattern =
     seqs [WordB, Grp 1 (alts [lits ''remote'', lits ''work from home'', lits ''wfh'']), WordB]"

text \<open>\<^verbatim>\<open>/location:?\s*([A-Z][a-zA-Z\s,.-]+(?:,\s*[A-Z]{2})?)/i\<close>\<close>

definition location_char :: "char \<Rightarrow> bool" where
  "location_char c = (in_range CHR ''a'' CHR ''z'' c \<or> in_range CHR ''A'' CHR ''Z'' c
     \<or> is_ws c \<or> c \<in> set '',.-'')"

definition locationPattern :: regex where
  "locationPattern =
     seqs [lits ''location'', rx_opt (Lit CHR '':''), rx_star (Cls is_ws),
           Grp 1 (seqs [upperAZ, rx_plus (Cls location_char),
                        rx_opt (seqs [Lit CHR '','', rx_star (Cls is_ws),
                                      Rep 2 (Some 2) True upperAZ])])]"

definition states :: "string list" where
  "states =
     [''California'', ''New York'', ''Texas'', ''Florida'', ''Illinois'', ''Pennsylvania'',
      ''Ohio'', ''Georgia'', ''North Carolina'', ''Michigan'', ''Massachusetts'', ''Washington'']"

text \<open>\<^verbatim>\<open>new RegExp(`\\b${state}\\b`, 'i')\<close>\<close>

definition stateRegex :: "string \<Rightarrow> regex" where
  "stateRegex state = seqs [WordB, lits state, WordB]"

definition findLocation :: "string \<Rightarrow> string option" where
  "findLocation text =
     (case exec cityStatePattern False text of
        Some m \<Rightarrow>
          Some ((case match_group text m 1 of None \<Rightarrow> ''undefined'' | Some g \<Rightarrow> g) @ '', ''
                @ (case match_group text m 2 of None \<Rightarrow> ''undefined'' | Some g \<Rightarrow> g))
      | None \<Rightarrow>
          if test remotePattern True text then Some ''Remote''
          else (case (case exec locationPattern True text of
                        None \<Rightarrow> None
                      | Some m \<Rightarrow> (case match_group text m 1 of
                                     None \<Rightarrow> None
                                   | Some g \<Rightarrow> if g \<noteq> [] then Some g else None)) of
                  Some g \<Rightarrow> Some (trim g)
                | None \<Rightarrow> find (\<lambda>state. test (stateRegex state) True text) states))"

definition update_found :: "results \<Rightarrow> field_key \<Rightarrow> string option \<Rightarrow> nat \<Rightarrow> string
    \<Rightarrow> js_error + results" where
  "update_found results fld found conf src =
     (case found of
        None \<Rightarrow> Inr results
      | Some s \<Rightarrow> if s \<noteq> [] then updateField results fld (JStr s) conf src else Inr results)"

definition detectFromTextAnalysis :: "document \<Rightarrow> results \<Rightarrow> js_error + results" where
  "detectFromTextAnalysis doc results =
     (let bodyText = innerText doc; hs = headings doc in
      sequence (if fconfidence (results Company) < 60
                then update_found results Company (findCompanyName bodyText hs) 60 ''Text Analysis''
                else Inr results) (\<lambda>results.
      sequence (if fconfidence (results JobTitle) < 60
                then update_found results JobTitle (findJobTitle doc hs bodyText) 60 ''Text Analysis''
                else Inr results) (\<lambda>results.
      if fconfidence (results Location) < 60
      then update_found results Location (findLocation bodyText) 60 ''Text Analysis''
      else Inr results)))"

section \<open>Layer 4: fallbacks\<close>

text \<open>\<^verbatim>\<open>/^([^-|]+)/\<close>\<close>

definition titlePattern :: regex where
  "titlePattern = Seq Bol (Grp 1 (rx_plus (Cls (\<lambda>c. c \<noteq> CHR ''-'' \<and> c \<noteq> CHR ''|''))))"

text \<open>\<^verbatim>\<open>hostname.replace(/^www\./, '')\<close>\<close>

definition strip_www :: "string \<Rightarrow> string" where
  "strip_www host = (if take 4 host = ''www.'' then drop 4 host else host)"

definition domain_company :: "string \<Rightarrow> string" where
  "domain_company host =
     (let company = (case split_on CHR ''.'' (strip_www host) of [] \<Rightarrow> [] | w # ws \<Rightarrow> w)
      in toUpperCase (take 1 company) @ drop 1 company)"

text \<open>
  \<^verbatim>\<open>titleMatch && titleMatch[1].trim()\<close>, and the trimmed group when that is truthy.
  Reading \<^verbatim>\<open>trim\<close> of a group that took no part would raise.
\<close>

definition page_title :: "document \<Rightarrow> js_error + string option" where
  "page_title doc =
     (case exec titlePattern False (title doc) of
        None \<Rightarrow> Inr None
      | Some titleMatch \<Rightarrow>
          (case match_group (title doc) titleMatch 1 of
             None \<Rightarrow> Inl TypeError
           | Some g \<Rightarrow> Inr (Some (trim g))))"

text \<open>\<^verbatim>\<open>firstH1 && firstH1.textContent.trim()\<close> for \<^verbatim>\<open>document.querySelector('h1')\<close>.\<close>

definition first_h1 :: "document \<Rightarrow> string option" where
  "first_h1 doc = map_option (\<lambda>h. trim (textContent h)) (find (\<lambda>h. tag h = H1) (headings doc))"

definition applyFallbacks :: "document \<Rightarrow> results \<Rightarrow> js_error + results" where
  "applyFallbacks doc results =
     sequence (if fconfidence (results JobTitle) < 40
               then sequence (page_title doc) (\<lambda>t.
                      update_found results JobTitle t 40 ''Page Title'')
               else Inr results) (\<lambda>results.
     sequence (if fconfidence (results Company) < 40
               then updateField results Company (JStr (domain_company (hostname doc))) 35
                      ''Domain Name''
               else Inr results) (\<lambda>results.
     if fconfidence (results JobTitle) < 40
     then update_found results JobTitle (first_h1 doc) 35 ''First H1''
     else Inr results))"

section \<open>The detector\<close>

definition initial_results :: results where
  "initial_results = (\<lambda>fld. \<lparr>fvalue = [], fconfidence = 0, fsource = []\<rparr>)"

record detected =
  company :: string
  jobTitle :: string
  location :: string
  description :: string
  confidence :: "field_key \<Rightarrow> nat"
  sources :: "field_key \<Rightarrow> string"

definition report :: "results \<Rightarrow> detected" where
  "report results =
     \<lparr>company = fvalue (results Company),
      jobTitle = fvalue (results JobTitle),
      location = fvalue (results Location),
      description = fvalue (results Description),
      confidence = (\<lambda>fld. fconfidence (results fld)),
      sources = (\<lambda>fld. fsource (results fld))\<rparr>"

definition run_layers :: "document \<Rightarrow> js_error + results" where
  "run_layers doc =
     sequence (detectFromStructuredData doc initial_results) (\<lambda>results.
     sequence (detectFromSemanticHTML doc results) (\<lambda>results.
     sequence (detectFromTextAnalysis doc results) (\<lambda>results.
     applyFallbacks doc results)))"

definition detect :: "document \<Rightarrow> js_error + detected" where
  "detect doc = sequence (run_layers doc) (\<lambda>results. Inr (report results))"

text \<open>\<^verbatim>\<open>setConfidenceIndicator\<close> of the form: the class that a confidence is shown with.\<close>

datatype indicator = High | Medium | Low | NotDetected

definition setConfidenceIndicator :: "nat \<Rightarrow> indicator" where
  "setConfidenceIndicator c =
     (if c \<ge> 70 then High else if c \<ge> 40 then Medium else if c > 0 then Low else NotDetected)"

definition value_of :: "detected \<Rightarrow> field_key \<Rightarrow> string" where
  "value_of out fld =
     (case fld of Company \<Rightarrow> company out | JobTitle \<Rightarrow> jobTitle out
      | Location \<Rightarrow> location out | Description \<Rightarrow> description out)"

section \<open>The update rule in the words of the specification\<close>

text \<open>
  A value is blank when it is empty or consists of white space only. The words of a value
  are its maximal runs of characters that are not white space; the normal form of a value
  is its words with one space between neighbours.
\<close>

definition blank :: "string \<Rightarrow> bool" where
  "blank s = (\<forall>c \<in> set s. is_ws c)"

function words_of :: "string \<Rightarrow> string list" where
  "words_of s =
     (case dropWhile is_ws s of
        [] \<Rightarrow> []
      | c # cs \<Rightarrow> takeWhile (\<lambda>x. \<not> is_ws x) (c # cs) # words_of (dropWhile (\<lambda>x. \<not> is_ws x) cs))"
  by pat_completeness auto
termination
proof (relation "measure length", simp, goal_cases)
  case (1 s c cs)
  have "length (dropWhile (\<lambda>x. \<not> is_ws x) cs) \<le> length cs"
    by (rule length_dropWhile_le)
  moreover have "length (c # cs) \<le> length s"
    using length_dropWhile_le [of is_ws s] 1 by simp
  ultimately show ?case by simp
qed

fun join_words :: "string list \<Rightarrow> string" where
  "join_words [] = []"
| "join_words [w] = w"
| "join_words (w # ws) = w @ CHR '' '' # join_words ws"

definition normal_form :: "string \<Rightarrow> string" where
  "normal_form s = join_words (words_of s)"

definition strip_end :: "string \<Rightarrow> string" where
  "strip_end t = rev (dropWhile is_ws (rev t))"

section \<open>The detector as a priority merge\<close>

text \<open>
  The reference formulation: every layer offers candidates (value, confidence, source)
  for a field, in the order of the layers, and the result of a field is the merge of its
  candidates by the update rule, started from the empty result.
\<close>

type_synonym candidate = "string \<times> nat \<times> string"

definition merge1 :: "field_result \<Rightarrow> candidate \<Rightarrow> field_result" where
  "merge1 cur cand =
     (case cand of (v, conf, src) \<Rightarrow>
        if blank v then cur
        else if conf > fconfidence cur
        then \<lparr>fvalue = normal_form v, fconfidence = conf, fsource = src\<rparr>
        else cur)"

definition offered :: "string option \<Rightarrow> nat \<Rightarrow> string \<Rightarrow> candidate list" where
  "offered v conf src = (case v of None \<Rightarrow> [] | Some s \<Rightarrow> if s \<noteq> [] then [(s, conf, src)] else [])"

definition json_ld_offer :: "json \<Rightarrow> field_key \<Rightarrow> candidate list" where
  "json_ld_offer item fld =
     (case json_ld_value item fld of
        Inr (Some (JStr s)) \<Rightarrow> [(s, 95, ''JSON-LD Schema'')]
      | _ \<Rightarrow> [])"

definition json_ld_candidates :: "document \<Rightarrow> field_key \<Rightarrow> candidate list" where
  "json_ld_candidates doc fld =
     (case findJobPostingSchema doc of None \<Rightarrow> [] | Some item \<Rightarrow> json_ld_offer item fld)"

definition open_graph_candidates :: "document \<Rightarrow> field_key \<Rightarrow> candidate list" where
  "open_graph_candidates doc fld =
     (let ogData = extractFromOpenGraph doc in
      case fld of
        Company \<Rightarrow> offered (og_siteName ogData) 85 ''OpenGraph Meta''
      | JobTitle \<Rightarrow> offered (og_title ogData) 85 ''OpenGraph Meta''
      | Location \<Rightarrow> []
      | Description \<Rightarrow> offered (og_description ogData) 85 ''OpenGraph Meta'')"

definition selector_candidate :: "document \<Rightarrow> nat \<Rightarrow> string \<Rightarrow> string \<Rightarrow> candidate list" where
  "selector_candidate doc conf src selector =
     (case querySelector doc selector of
        Element text \<Rightarrow> if trim text \<noteq> [] then [(trim text, conf, src)] else []
      | _ \<Rightarrow> [])"

definition selector_candidates :: "document \<Rightarrow> string \<Rightarrow> nat \<Rightarrow> string \<Rightarrow> candidate list" where
  "selector_candidates doc selectors conf src =
     concat (map (selector_candidate doc conf src) (map trim (split_on CHR '','' selectors)))"

definition site_candidates :: "document \<Rightarrow> field_key \<Rightarrow> candidate list" where
  "site_candidates doc fld =
     (case site_pattern_of (toLowerCase (hostname doc)) of
        None \<Rightarrow> []
      | Some sitePattern \<Rightarrow>
          if fld = Description \<and> site_selectors sitePattern Description = [] then []
          else selector_candidates doc (site_selectors sitePattern fld) 80 ''Known Site Pattern'')"

definition generic_candidates :: "document \<Rightarrow> field_key \<Rightarrow> candidate list" where
  "generic_candidates doc fld =
     selector_candidates doc (generic_selectors fld) (generic_confidence fld) ''Semantic HTML''"

definition aria_candidate :: "field_key \<Rightarrow> string \<times> string \<Rightarrow> candidate list" where
  "aria_candidate fld el =
     (if trim (snd el) \<noteq> [] \<and> aria_matches (toLowerCase (fst el)) fld
      then [(trim (snd el), 70, ''ARIA Label'')] else [])"

definition aria_candidates :: "document \<Rightarrow> field_key \<Rightarrow> candidate list" where
  "aria_candidates doc fld = concat (map (aria_candidate fld) (aria_labelled doc))"

definition text_candidates :: "document \<Rightarrow> field_key \<Rightarrow> candidate list" where
  "text_candidates doc fld =
     (case fld of
        Company \<Rightarrow> offered (findCompanyName (innerText doc) (headings doc)) 60 ''Text Analysis''
      | JobTitle \<Rightarrow>
          offered (findJobTitle doc (headings doc) (innerText doc)) 60 ''Text Analysis''
      | Location \<Rightarrow> offered (findLocation (innerText doc)) 60 ''Text Analysis''
      | Description \<Rightarrow> [])"

definition fallback_candidates :: "document \<Rightarrow> field_key \<Rightarrow> candidate list" where
  "fallback_candidates doc fld =
     (case fld of
        Company \<Rightarrow> [(domain_company (hostname doc), 35, ''Domain Name'')]
      | JobTitle \<Rightarrow>
          (case page_title doc of Inr t \<Rightarrow> offered t 40 ''Page Title'' | Inl e \<Rightarrow> [])
          @ offered (first_h1 doc) 35 ''First H1''
      | _ \<Rightarrow> [])"

definition candidates :: "document \<Rightarrow> field_key \<Rightarrow> candidate list" where
  "candidates doc fld =
     json_ld_candidates doc fld @ open_graph_candidates doc fld @ site_candidates doc fld
     @ generic_candidates doc fld @ aria_candidates doc fld @ text_candidates doc fld
     @ fallback_candidates doc fld"

definition empty_result :: field_result where
  "empty_result = \<lparr>fvalue = [], fconfidence = 0, fsource = []\<rparr>"

definition resolve :: "candidate list \<Rightarrow> field_result" where
  "resolve cs = foldl merge1 empty_result cs"

text \<open>\<open>refines C r r'\<close>: the results \<open>r'\<close> are the results \<open>r\<close> merged with the candidates \<open>C\<close>.\<close>

definition refines :: "(field_key \<Rightarrow> candidate list) \<Rightarrow> results \<Rightarrow> results \<Rightarrow> bool" where
  "refines C r r' = (\<forall>fld. r' fld = foldl merge1 (r fld) (C fld))"

definition only :: "field_key \<Rightarrow> candidate list \<Rightarrow> field_key \<Rightarrow> candidate list" where
  "only f cs = (\<lambda>g. if g = f then cs else [])"

text \<open>
  The matches of a field are its candidates with a value that is not blank; \<open>levels\<close> are
  the confidences that the layers assert.
\<close>

definition conf_of :: "candidate \<Rightarrow> nat" where
  "conf_of cand = fst (snd cand)"

definition matches :: "document \<Rightarrow> field_key \<Rightarrow> candidate list" where
  "matches doc fld = filter (\<lambda>cand. \<not> blank (fst cand)) (candidates doc fld)"

definition levels :: "nat set" where
  "levels = {35, 40, 60, 70, 75, 80, 85, 95}"

section \<open>Pages used as examples\<close>

text \<open>A page with no script, no meta element, no element that any selector finds, no text.\<close>

definition blank_page :: document where
  "blank_page =
     \<lparr>ld_json = [], meta_tags = [], querySelector = (\<lambda>selector. NoElement), aria_labelled = [],
      innerText = [], headings = [], title = [], hostname = []\<rparr>"

definition lead_page :: document where
  "lead_page =
     blank_page\<lparr>headings :=
       [\<lparr>tag = H2, textContent = ''Lead'', fontSize = Some 20\<rparr>,
        \<lparr>tag = H2, textContent = ''Senior Engineer'', fontSize = Some 24\<rparr>]\<rparr>"

definition engineer_posting :: json where
  "engineer_posting = JObj [(''@type'', JStr ''JobPosting''), (''title'', JStr ''Engineer'')]"

definition null_entry_page :: document where
  "null_entry_page = blank_page\<lparr>ld_json := [Some (JArr [JNull, engineer_posting])]\<rparr>"

definition country_page :: document where
  "country_page =
     blank_page\<lparr>ld_json :=
       [Some (JObj [(''@type'', JStr ''JobPosting''),
                    (''jobLocation'',
                     JObj [(''address'',
                            JObj [(''addressCountry'',
                                   JObj [(''@type'', JStr ''Country''), (''name'', JStr ''US'')])])])])]\<rparr>"







definition fallback_page :: document where
  "fallback_page =
     blank_page\<lparr>title := ''DevOps Lead - Acme Careers'', hostname := ''jobs.acme.com''\<rparr>"

definition h1_page :: document where
  "h1_page =
     blank_page\<lparr>headings :=
       [\<lparr>tag = H1, textContent = ''About us'', fontSize = Some 32\<rparr>,
        \<lparr>tag = H1, textContent = ''Senior Engineer'', fontSize = Some 32\<rparr>]\<rparr>"

definition strong_company :: results where
  "strong_company =
     initial_results(Company := \<lparr>fvalue = ''Acme'', fconfidence = 60, fsource = ''Text Analysis''\<rparr>)"










text \<open>The entries of the scripts in document order, and the test of an entry's type.\<close>

definition entries :: "json option list \<Rightarrow> json list" where
  "entries scripts =
     concat (map (\<lambda>script. case script of None \<Rightarrow> [] | Some data \<Rightarrow> items_of data) scripts)"

definition is_job_posting :: "json \<Rightarrow> bool" where
  "is_job_posting item = (get_prop item ''@type'' = Inr (Some (JStr ''JobPosting'')))"

section \<open>Facts about strings\<close>

declare words_of.simps [simp del]

lemma sequence_Inr [simp]: "sequence (Inr x) f = f x"
  by (simp add: sequence_def)

lemma sequence_Inl [simp]: "sequence (Inl e) f = Inl e"
  by (simp add: sequence_def)

lemma trim_strip_end: "trim s = strip_end (dropWhile is_ws s)"
  by (simp add: trim_def strip_end_def)

lemma blank_dropWhile: "blank s \<longleftrightarrow> dropWhile is_ws s = []"
  by (simp add: blank_def)

lemma strip_end_append:
  "strip_end (xs @ ys) = (if blank ys then strip_end xs else xs @ strip_end ys)"
  by (auto simp: strip_end_def dropWhile_append blank_def)

lemma strip_end_no_ws: "\<forall>c \<in> set w. \<not> is_ws c \<Longrightarrow> strip_end w = w"
  by (cases w rule: rev_cases) (auto simp: strip_end_def)

lemma ws_collapse_append: "\<forall>c \<in> set w. \<not> is_ws c \<Longrightarrow> ws_collapse (w @ r) = w @ ws_collapse r"
  by (induction w) auto

lemma words_of_dropWhile: "words_of (dropWhile is_ws s) = words_of s"
  by (simp add: words_of.simps [of "dropWhile is_ws s"] words_of.simps [of s])

lemma words_of_blank: "blank s \<Longrightarrow> words_of s = []"
proof -
  assume "blank s"
  then have "dropWhile is_ws s = []" by (simp add: blank_def)
  then show ?thesis by (simp only: words_of.simps [of s] list.case)
qed

lemma strip_end_hd: "\<not> is_ws c \<Longrightarrow> \<exists>r. strip_end (c # cs) = c # r"
  using strip_end_append [of "[c]" cs] by (auto simp: strip_end_def)

lemma no_leading_ws: "dropWhile is_ws (c # cs) = c # cs \<Longrightarrow> \<not> is_ws c"
proof
  assume "dropWhile is_ws (c # cs) = c # cs" and "is_ws c"
  then have "dropWhile is_ws cs = c # cs" by simp
  with length_dropWhile_le [of is_ws cs] show False by simp
qed

lemma collapse_strip_end:
  "dropWhile is_ws t = t \<Longrightarrow> ws_collapse (strip_end t) = join_words (words_of t)"
proof (induction t rule: length_induct)
  case (1 t)
  show ?case
  proof (cases t)
    case Nil
    then show ?thesis by (simp add: strip_end_def words_of.simps [of "[]"])
  next
    case (Cons c cs)
    have c: "\<not> is_ws c" using 1(2) Cons no_leading_ws by blast
    define w where "w = takeWhile (\<lambda>x. \<not> is_ws x) t"
    define r where "r = dropWhile (\<lambda>x. \<not> is_ws x) cs"
    have t: "t = w @ r" using Cons c by (simp add: w_def r_def)
    have w: "\<forall>x \<in> set w. \<not> is_ws x" unfolding w_def by (auto dest: set_takeWhileD)
    have wo: "words_of t = w # words_of r"
      by (subst words_of.simps) (simp add: w_def r_def Cons c)
    show ?thesis
    proof (cases "blank r")
      case True
      then show ?thesis
        using ws_collapse_append [OF w, of "[]"]
        by (simp add: t strip_end_append strip_end_no_ws [OF w] wo [unfolded t] words_of_blank)
    next
      case False
      define r' where "r' = dropWhile is_ws r"
      have r'ne: "r' \<noteq> []" using False by (simp add: r'_def blank_dropWhile)
      have r'lead: "dropWhile is_ws r' = r'" unfolding r'_def by (simp add: dropWhile_idem)
      have r'nb: "\<not> blank r'" using r'ne r'lead by (simp add: blank_dropWhile)
      obtain x xs where r: "r = x # xs" using False by (cases r) (auto simp: blank_def)
      have x: "is_ws x" using r hd_dropWhile [of "\<lambda>x. \<not> is_ws x" cs] by (simp add: r_def)
      have rsplit: "r = takeWhile is_ws r @ r'" by (simp add: r'_def)
      have wne: "w \<noteq> []" using Cons c by (simp add: w_def)
      have "length t = length w + length r" using arg_cong [OF t, of length] by simp
      then have len: "length r' < length t"
        using length_dropWhile_le [of is_ws r] wne by (cases w) (simp_all add: r'_def)
      obtain y ys where y: "r' = y # ys" using r'ne by (cases r') auto
      have ny: "\<not> is_ws y" using r'lead y no_leading_ws by blast
      obtain q where q: "strip_end r' = y # q" using strip_end_hd [OF ny] y by blast
      have se: "strip_end r = takeWhile is_ws r @ strip_end r'"
        using strip_end_append [of "takeWhile is_ws r" r'] r'nb rsplit by simp
      obtain zs where tw: "takeWhile is_ws r = x # zs" "\<forall>z \<in> set zs. is_ws z"
        using r x by (auto dest: set_takeWhileD)
      have "ws_collapse (strip_end r) = CHR '' '' # ws_collapse (strip_end r')"
        using tw x ny by (simp add: se q dropWhile_append3 dropWhile_append)
      moreover have "ws_collapse (strip_end r') = join_words (words_of r')"
        using 1(1) len r'lead by blast
      moreover have "words_of r = words_of r'" by (simp add: r'_def words_of_dropWhile)
      moreover have "words_of r' \<noteq> []"
        by (subst words_of.simps) (simp add: y ny)
      ultimately show ?thesis
        using ws_collapse_append [OF w, of "strip_end r"] False
        by (cases "words_of r'") (simp_all add: t strip_end_append wo [unfolded t])
    qed
  qed
qed

lemma collapse_trim_normal_form: "ws_collapse (trim s) = normal_form s"
  using collapse_strip_end [of "dropWhile is_ws s"]
  by (simp add: trim_strip_end normal_form_def words_of_dropWhile dropWhile_idem)

lemma trim_blank: "trim s = [] \<longleftrightarrow> blank s"
proof
  assume "trim s = []"
  then have all: "\<forall>x \<in> set (dropWhile is_ws s). is_ws x" by (simp add: trim_def)
  have "dropWhile is_ws s = []"
  proof (rule ccontr)
    assume ne: "dropWhile is_ws s \<noteq> []"
    then have "\<not> is_ws (hd (dropWhile is_ws s))" by (rule hd_dropWhile)
    with all ne show False by simp
  qed
  then show "blank s" by (simp add: blank_def)
next
  assume "blank s"
  then have "dropWhile is_ws s = []" by (simp add: blank_def)
  then show "trim s = []" by (simp only: trim_def rev.simps dropWhile.simps)
qed

section \<open>The update primitive is the merge step\<close>

lemma updateField_JStr:
  "updateField r f (JStr s) c src = Inr (r(f := merge1 (r f) (s, c, src)))"
proof (cases "blank s")
  case True
  then have "trim s = []" by (simp add: trim_blank)
  then show ?thesis using True by (simp add: updateField_def merge1_def)
next
  case False
  then have "trim s \<noteq> []" by (simp add: trim_blank)
  moreover from False have "s \<noteq> []" by (auto simp: blank_def)
  ultimately show ?thesis
    using False by (simp add: updateField_def merge1_def collapse_trim_normal_form Let_def)
qed

lemma merge1_no_gain: "c \<le> fconfidence cur \<Longrightarrow> merge1 cur (v, c, s) = cur"
  by (simp add: merge1_def)

lemma merge1_mono: "fconfidence cur \<le> fconfidence (merge1 cur cand)"
  by (cases cand) (simp add: merge1_def)

lemma foldl_merge1_mono: "fconfidence cur \<le> fconfidence (foldl merge1 cur cs)"
proof (induction cs arbitrary: cur)
  case Nil
  show ?case by simp
next
  case (Cons a cs)
  have "fconfidence cur \<le> fconfidence (merge1 cur a)" by (rule merge1_mono)
  also have "\<dots> \<le> fconfidence (foldl merge1 (merge1 cur a) cs)" by (rule Cons.IH)
  finally show ?case by simp
qed

lemma foldl_merge1_no_gain:
  "\<forall>x \<in> set cs. fst (snd x) \<le> fconfidence cur \<Longrightarrow> foldl merge1 cur cs = cur"
  by (induction cs) (auto simp: merge1_no_gain)

lemma update_found_merge:
  "update_found r f v c src = Inr (r(f := foldl merge1 (r f) (offered v c src)))"
  by (cases v) (simp_all add: update_found_def offered_def updateField_JStr)

lemma update_below_merge:
  "c \<le> limit \<Longrightarrow>
   update_below r f v limit c src = Inr (r(f := foldl merge1 (r f) (offered v c src)))"
  by (cases v) (auto simp: update_below_def offered_def updateField_JStr merge1_no_gain)

subsection \<open>Composition of refinements\<close>

lemma refines_refl: "refines (\<lambda>f. []) r r"
  by (simp add: refines_def)

lemma refines_trans:
  "refines C r r' \<Longrightarrow> refines D r' r'' \<Longrightarrow> refines (\<lambda>f. C f @ D f) r r''"
  by (simp add: refines_def)

lemma refines_only: "refines (only f cs) r (r(f := foldl merge1 (r f) cs))"
  by (simp add: refines_def only_def)

lemma refines_cong: "refines C r r' \<Longrightarrow> (\<And>f. C f = D f) \<Longrightarrow> refines D r r'"
  by (simp add: refines_def)

lemma refines_guard:
  assumes "refines (only f cs) r r'" and "\<forall>x \<in> set cs. fst (snd x) \<le> limit"
  shows "refines (only f cs) r (if fconfidence (r f) < limit then r' else r)"
proof (cases "fconfidence (r f) < limit")
  case True
  with assms(1) show ?thesis by simp
next
  case False
  then have "foldl merge1 (r f) cs = r f"
    using assms(2) by (intro foldl_merge1_no_gain) auto
  then show ?thesis using False by (simp add: refines_def only_def)
qed

section \<open>Each layer merges its candidates\<close>

lemma trim_not_blank: "trim t \<noteq> [] \<Longrightarrow> \<not> blank (trim t)"
proof -
  assume ne: "trim t \<noteq> []"
  have d: "dropWhile is_ws t \<noteq> []"
  proof
    assume "dropWhile is_ws t = []"
    then have "trim t = []" by (simp only: trim_def rev.simps dropWhile.simps)
    with ne show False by simp
  qed
  then obtain c cs where c: "dropWhile is_ws t = c # cs" by (cases "dropWhile is_ws t") auto
  have "\<not> is_ws c" using hd_dropWhile [OF d] c by simp
  then obtain q where "trim t = c # q"
    using strip_end_hd [of c cs] by (auto simp: trim_strip_end c)
  with \<open>\<not> is_ws c\<close> show ?thesis by (auto simp: blank_def)
qed

lemma json_ld_step_refines:
  assumes "json_ld_step item r fld = Inr r'"
  shows "refines (only fld (json_ld_offer item fld)) r r'"
proof (cases "json_ld_value item fld")
  case (Inl e)
  with assms show ?thesis by (simp add: json_ld_step_def)
next
  case (Inr v)
  show ?thesis
  proof (cases v)
    case None
    with Inr assms show ?thesis
      by (simp add: json_ld_step_def when_truthy_def json_ld_offer_def refines_def only_def)
  next
    case (Some x)
    show ?thesis
    proof (cases x)
      case (JStr s)
      with Some Inr assms show ?thesis
        by (auto simp: json_ld_step_def when_truthy_def json_ld_offer_def refines_def only_def
              updateField_JStr merge1_def blank_def split: if_splits)
    qed (use Some Inr assms in \<open>auto simp: json_ld_step_def when_truthy_def json_ld_offer_def
           refines_def only_def updateField_def split: if_splits\<close>)
  qed
qed

lemma only_all:
  "only Company (C Company) f @ only JobTitle (C JobTitle) f @ only Location (C Location) f
     @ only Description (C Description) f = C f"
  by (cases f) (simp_all add: only_def)

lemma from_json_ld_refines:
  assumes "from_json_ld item r = Inr r'"
  shows "refines (json_ld_offer item) r r'"
proof -
  from assms obtain r1 r2 r3 where
    s1: "json_ld_step item r Company = Inr r1" and
    s2: "json_ld_step item r1 JobTitle = Inr r2" and
    s3: "json_ld_step item r2 Location = Inr r3" and
    s4: "json_ld_step item r3 Description = Inr r'"
    by (auto simp: from_json_ld_def sequence_def split: sum.splits)
  have "refines (\<lambda>f. only Company (json_ld_offer item Company) f
          @ only JobTitle (json_ld_offer item JobTitle) f
          @ only Location (json_ld_offer item Location) f
          @ only Description (json_ld_offer item Description) f) r r'"
    using refines_trans [OF json_ld_step_refines [OF s1]
            refines_trans [OF json_ld_step_refines [OF s2]
              refines_trans [OF json_ld_step_refines [OF s3] json_ld_step_refines [OF s4]]]]
    by simp
  then show ?thesis by (rule refines_cong) (rule only_all)
qed

lemma offered_le: "\<forall>x \<in> set (offered v c src). fst (snd x) \<le> c"
  by (cases v) (simp_all add: offered_def)

lemma detectFromStructuredData_refines:
  assumes "detectFromStructuredData doc r = Inr r'"
  shows "refines (\<lambda>f. json_ld_candidates doc f @ open_graph_candidates doc f) r r'"
proof -
  obtain r1 where r1: "(case findJobPostingSchema doc of None \<Rightarrow> Inr r
                        | Some item \<Rightarrow> from_json_ld item r) = Inr r1"
    and rest: "sequence (update_below r1 JobTitle (og_title (extractFromOpenGraph doc)) 85 85 ''OpenGraph Meta'') (\<lambda>r.
               sequence (update_below r Company (og_siteName (extractFromOpenGraph doc)) 85 85 ''OpenGraph Meta'') (\<lambda>r.
               update_below r Description (og_description (extractFromOpenGraph doc)) 85 85 ''OpenGraph Meta'')) = Inr r'"
    using assms by (auto simp: detectFromStructuredData_def sequence_def Let_def split: sum.splits)
  have a: "refines (json_ld_candidates doc) r r1"
  proof (cases "findJobPostingSchema doc")
    case None
    with r1 show ?thesis by (simp add: json_ld_candidates_def refines_def)
  next
    case (Some item)
    with r1 have "refines (json_ld_offer item) r r1" by (simp add: from_json_ld_refines)
    then show ?thesis
      by (rule refines_cong) (simp add: json_ld_candidates_def Some)
  qed
  have b: "refines (open_graph_candidates doc) r1 r'"
    unfolding refines_def
  proof
    fix fld
    show "r' fld = foldl merge1 (r1 fld) (open_graph_candidates doc fld)"
      using rest
      by (cases fld) (auto simp: update_below_merge open_graph_candidates_def Let_def)
  qed
  from refines_trans [OF a b] show ?thesis .
qed

lemma selector_candidate_le: "\<forall>x \<in> set (selector_candidate doc c src sel). fst (snd x) \<le> c"
  by (auto simp: selector_candidate_def split: query_result.splits)

lemma try_selector_list_refines:
  "fconfidence (r f) < c \<Longrightarrow>
   refines (only f (concat (map (selector_candidate doc c src) sels))) r
     (try_selector_list doc r f sels c src)"
proof (induction sels arbitrary: r)
  case Nil
  show ?case by (simp add: refines_def only_def)
next
  case (Cons sel sels)
  show ?case
  proof (cases "querySelector doc sel")
    case Raises
    with Cons show ?thesis by (simp add: selector_candidate_def)
  next
    case NoElement
    with Cons show ?thesis by (simp add: selector_candidate_def)
  next
    case (Element t)
    show ?thesis
    proof (cases "trim t = []")
      case True
      with Element Cons show ?thesis by (simp add: selector_candidate_def)
    next
      case False
      let ?new = "\<lparr>fvalue = normal_form (trim t), fconfidence = c, fsource = src\<rparr>"
      have m: "merge1 (r f) (trim t, c, src) = ?new"
        using trim_not_blank [OF False] Cons.prems by (simp add: merge1_def)
      have "foldl merge1 ?new (concat (map (selector_candidate doc c src) sels)) = ?new"
        by (rule foldl_merge1_no_gain) (use selector_candidate_le in auto)
      moreover have "selector_candidate doc c src sel = [(trim t, c, src)]"
        using Element False by (simp add: selector_candidate_def)
      ultimately show ?thesis
        using Element False m by (simp add: updateField_JStr refines_def only_def)
    qed
  qed
qed

lemma trySelectors_refines:
  "refines (only f (selector_candidates doc sels c src)) r (trySelectors doc r f sels c src)"
proof (cases "fconfidence (r f) < c")
  case True
  then show ?thesis
    by (simp add: trySelectors_def selector_candidates_def try_selector_list_refines del: map_map)
next
  case False
  have "foldl merge1 (r f) (selector_candidates doc sels c src) = r f"
    by (rule foldl_merge1_no_gain)
       (use False selector_candidate_le in \<open>fastforce simp: selector_candidates_def\<close>)
  with False show ?thesis by (simp add: trySelectors_def refines_def only_def)
qed

lemma only_nil: "only f [] = (\<lambda>g. [])"
  by (auto simp: only_def)

lemma try_site_refines:
  "refines (\<lambda>f. if f = Description \<and> site_selectors sp Description = [] then []
                 else selector_candidates doc (site_selectors sp f) 80 ''Known Site Pattern'')
     r (try_site doc sp r)"
proof -
  let ?C = "\<lambda>f. if f = Description \<and> site_selectors sp Description = [] then []
                 else selector_candidates doc (site_selectors sp f) 80 ''Known Site Pattern''"
  define r1 where "r1 = trySelectors doc r Company (site_selectors sp Company) 80 ''Known Site Pattern''"
  define r2 where "r2 = trySelectors doc r1 JobTitle (site_selectors sp JobTitle) 80 ''Known Site Pattern''"
  define r3 where "r3 = trySelectors doc r2 Location (site_selectors sp Location) 80 ''Known Site Pattern''"
  define r4 where "r4 = (if site_selectors sp Description \<noteq> []
     then trySelectors doc r3 Description (site_selectors sp Description) 80 ''Known Site Pattern''
     else r3)"
  have e: "try_site doc sp r = r4"
    by (simp add: try_site_def Let_def r1_def r2_def r3_def r4_def)
  have s1: "refines (only Company (?C Company)) r r1"
    unfolding r1_def using trySelectors_refines by simp
  have s2: "refines (only JobTitle (?C JobTitle)) r1 r2"
    unfolding r2_def using trySelectors_refines by simp
  have s3: "refines (only Location (?C Location)) r2 r3"
    unfolding r3_def using trySelectors_refines by simp
  have s4: "refines (only Description (?C Description)) r3 r4"
    unfolding r4_def using trySelectors_refines refines_refl by (simp add: only_nil)
  have "refines (\<lambda>f. only Company (?C Company) f @ only JobTitle (?C JobTitle) f
          @ only Location (?C Location) f @ only Description (?C Description) f) r r4"
    using refines_trans [OF s1 refines_trans [OF s2 refines_trans [OF s3 s4]]] by simp
  then have "refines ?C r r4" by (rule refines_cong) (rule only_all)
  with e show ?thesis by simp
qed

lemma try_generic_refines: "refines (generic_candidates doc) r (try_generic doc r)"
proof -
  let ?C = "generic_candidates doc"
  define r1 where "r1 = trySelectors doc r Company (generic_selectors Company) (generic_confidence Company) ''Semantic HTML''"
  define r2 where "r2 = trySelectors doc r1 JobTitle (generic_selectors JobTitle) (generic_confidence JobTitle) ''Semantic HTML''"
  define r3 where "r3 = trySelectors doc r2 Location (generic_selectors Location) (generic_confidence Location) ''Semantic HTML''"
  define r4 where "r4 = trySelectors doc r3 Description (generic_selectors Description) (generic_confidence Description) ''Semantic HTML''"
  have e: "try_generic doc r = r4"
    by (simp add: try_generic_def Let_def r1_def r2_def r3_def r4_def)
  have s1: "refines (only Company (?C Company)) r r1"
    unfolding r1_def generic_candidates_def by (rule trySelectors_refines)
  have s2: "refines (only JobTitle (?C JobTitle)) r1 r2"
    unfolding r2_def generic_candidates_def by (rule trySelectors_refines)
  have s3: "refines (only Location (?C Location)) r2 r3"
    unfolding r3_def generic_candidates_def by (rule trySelectors_refines)
  have s4: "refines (only Description (?C Description)) r3 r4"
    unfolding r4_def generic_candidates_def by (rule trySelectors_refines)
  have "refines (\<lambda>f. only Company (?C Company) f @ only JobTitle (?C JobTitle) f
          @ only Location (?C Location) f @ only Description (?C Description) f) r r4"
    using refines_trans [OF s1 refines_trans [OF s2 refines_trans [OF s3 s4]]] by simp
  then have "refines ?C r r4" by (rule refines_cong) (rule only_all)
  with e show ?thesis by simp
qed

lemma aria_update_merge:
  "aria_update r label text fld =
     Inr (r(fld := foldl merge1 (r fld)
                     (if aria_matches label fld then [(text, 70, ''ARIA Label'')] else [])))"
  by (auto simp: aria_update_def updateField_JStr merge1_no_gain)

lemma aria_step_refines:
  "\<exists>r'. aria_step r el = Inr r' \<and> refines (\<lambda>f. aria_candidate f el) r r'"
proof (cases "trim (snd el) = []")
  case True
  then show ?thesis by (simp add: aria_step_def aria_candidate_def refines_def)
next
  case False
  let ?l = "toLowerCase (fst el)" and ?t = "trim (snd el)"
  let ?C = "\<lambda>f. aria_candidate f el"
  define r1 where "r1 = r(Company := foldl merge1 (r Company) (?C Company))"
  define r2 where "r2 = r1(JobTitle := foldl merge1 (r1 JobTitle) (?C JobTitle))"
  define r3 where "r3 = r2(Location := foldl merge1 (r2 Location) (?C Location))"
  have e: "aria_step r el = Inr r3"
    using False
    by (simp add: aria_step_def Let_def aria_update_merge aria_candidate_def r1_def r2_def r3_def)
  have s1: "refines (only Company (?C Company)) r r1" unfolding r1_def by (rule refines_only)
  have s2: "refines (only JobTitle (?C JobTitle)) r1 r2" unfolding r2_def by (rule refines_only)
  have s3: "refines (only Location (?C Location)) r2 r3" unfolding r3_def by (rule refines_only)
  have s4: "refines (only Description (?C Description)) r3 r3"
    by (simp add: aria_candidate_def aria_matches_def refines_def only_def)
  have "refines (\<lambda>f. only Company (?C Company) f @ only JobTitle (?C JobTitle) f
          @ only Location (?C Location) f @ only Description (?C Description) f) r r3"
    using refines_trans [OF s1 refines_trans [OF s2 refines_trans [OF s3 s4]]] by simp
  then have "refines ?C r r3" by (rule refines_cong) (rule only_all)
  with e show ?thesis by blast
qed

lemma aria_loop_refines:
  "\<exists>r'. aria_loop r els = Inr r' \<and> refines (\<lambda>f. concat (map (aria_candidate f) els)) r r'"
proof (induction els arbitrary: r)
  case Nil
  show ?case by (simp add: refines_def)
next
  case (Cons el els)
  obtain r1 where r1: "aria_step r el = Inr r1" "refines (\<lambda>f. aria_candidate f el) r r1"
    using aria_step_refines by blast
  obtain r2 where r2: "aria_loop r1 els = Inr r2"
      "refines (\<lambda>f. concat (map (aria_candidate f) els)) r1 r2"
    using Cons.IH by blast
  from refines_trans [OF r1(2) r2(2)] r1(1) r2(1) show ?case by simp
qed

lemma detectFromSemanticHTML_refines:
  "\<exists>r'. detectFromSemanticHTML doc r = Inr r'
     \<and> refines (\<lambda>f. site_candidates doc f @ generic_candidates doc f @ aria_candidates doc f) r r'"
proof -
  define r1 where "r1 = (case site_pattern_of (toLowerCase (hostname doc)) of
                           None \<Rightarrow> r | Some sp \<Rightarrow> try_site doc sp r)"
  have s1: "refines (site_candidates doc) r r1"
  proof (cases "site_pattern_of (toLowerCase (hostname doc))")
    case None
    then show ?thesis by (simp add: r1_def site_candidates_def refines_def)
  next
    case (Some sp)
    have "refines (site_candidates doc) r (try_site doc sp r)"
      by (rule refines_cong [OF try_site_refines]) (simp add: site_candidates_def Some)
    then show ?thesis by (simp add: r1_def Some)
  qed
  have s2: "refines (generic_candidates doc) r1 (try_generic doc r1)" by (rule try_generic_refines)
  obtain r3 where r3e: "aria_loop (try_generic doc r1) (aria_labelled doc) = Inr r3"
    and r3r: "refines (\<lambda>f. concat (map (aria_candidate f) (aria_labelled doc)))
                (try_generic doc r1) r3"
    using aria_loop_refines [of "try_generic doc r1" "aria_labelled doc"] by blast
  have r3: "refines (aria_candidates doc) (try_generic doc r1) r3"
    by (rule refines_cong [OF r3r]) (simp add: aria_candidates_def)
  have "detectFromSemanticHTML doc r = Inr r3"
    using r3e by (simp add: detectFromSemanticHTML_def Let_def r1_def tryAriaLabels_def)
  with refines_trans [OF s1 refines_trans [OF s2 r3]] show ?thesis by simp
qed

lemma detectFromTextAnalysis_refines:
  "\<exists>r'. detectFromTextAnalysis doc r = Inr r' \<and> refines (text_candidates doc) r r'"
proof -
  let ?C = "text_candidates doc"
  define r1 where "r1 = (if fconfidence (r Company) < 60
     then r(Company := foldl merge1 (r Company) (?C Company)) else r)"
  define r2 where "r2 = (if fconfidence (r1 JobTitle) < 60
     then r1(JobTitle := foldl merge1 (r1 JobTitle) (?C JobTitle)) else r1)"
  define r3 where "r3 = (if fconfidence (r2 Location) < 60
     then r2(Location := foldl merge1 (r2 Location) (?C Location)) else r2)"
  have e: "detectFromTextAnalysis doc r = Inr r3"
    by (simp add: detectFromTextAnalysis_def Let_def update_found_merge text_candidates_def
          r1_def r2_def r3_def)
  have s1: "refines (only Company (?C Company)) r r1"
    unfolding r1_def by (rule refines_guard [OF refines_only])
      (use offered_le in \<open>simp add: text_candidates_def\<close>)
  have s2: "refines (only JobTitle (?C JobTitle)) r1 r2"
    unfolding r2_def by (rule refines_guard [OF refines_only])
      (use offered_le in \<open>simp add: text_candidates_def\<close>)
  have s3: "refines (only Location (?C Location)) r2 r3"
    unfolding r3_def by (rule refines_guard [OF refines_only])
      (use offered_le in \<open>simp add: text_candidates_def\<close>)
  have s4: "refines (only Description (?C Description)) r3 r3"
    by (simp add: text_candidates_def refines_def only_def)
  have "refines (\<lambda>f. only Company (?C Company) f @ only JobTitle (?C JobTitle) f
          @ only Location (?C Location) f @ only Description (?C Description) f) r r3"
    using refines_trans [OF s1 refines_trans [OF s2 refines_trans [OF s3 s4]]] by simp
  then have "refines ?C r r3" by (rule refines_cong) (rule only_all)
  with e show ?thesis by blast
qed

lemma applyFallbacks_refines:
  assumes "applyFallbacks doc r = Inr r'"
  shows "refines (fallback_candidates doc) r r'"
proof -
  let ?C = "fallback_candidates doc"
  let ?t = "(case page_title doc of Inr t \<Rightarrow> offered t 40 ''Page Title'' | Inl e \<Rightarrow> [])"
  define r1 where "r1 = (if fconfidence (r JobTitle) < 40
     then r(JobTitle := foldl merge1 (r JobTitle) ?t) else r)"
  define r2 where "r2 = (if fconfidence (r1 Company) < 40
     then r1(Company := foldl merge1 (r1 Company) (?C Company)) else r1)"
  define r3 where "r3 = (if fconfidence (r2 JobTitle) < 40
     then r2(JobTitle := foldl merge1 (r2 JobTitle) (offered (first_h1 doc) 35 ''First H1''))
     else r2)"
  have e1: "(if fconfidence (r JobTitle) < 40
             then sequence (page_title doc) (\<lambda>t. update_found r JobTitle t 40 ''Page Title'')
             else Inr r) = Inr r1"
    using assms
    by (cases "page_title doc")
       (auto simp: applyFallbacks_def update_found_merge r1_def split: if_splits)
  have e: "r' = r3"
    using assms unfolding applyFallbacks_def e1
    by (auto simp: update_found_merge updateField_JStr fallback_candidates_def r2_def r3_def
          split: if_splits)
  have tle: "\<forall>x \<in> set ?t. fst (snd x) \<le> 40"
    using offered_le by (cases "page_title doc") auto
  have s1: "refines (only JobTitle ?t) r r1"
    unfolding r1_def by (rule refines_guard [OF refines_only tle])
  have s2: "refines (only Company (?C Company)) r1 r2"
    unfolding r2_def by (rule refines_guard [OF refines_only])
      (simp add: fallback_candidates_def)
  have s3: "refines (only JobTitle (offered (first_h1 doc) 35 ''First H1'')) r2 r3"
    unfolding r3_def by (rule refines_guard [OF refines_only])
      (use offered_le [of "first_h1 doc" 35] in fastforce)
  have "refines (\<lambda>f. only JobTitle ?t f @ only Company (?C Company) f
          @ only JobTitle (offered (first_h1 doc) 35 ''First H1'') f) r r3"
    using refines_trans [OF s1 refines_trans [OF s2 s3]] by simp
  then have "refines ?C r r3"
  proof (rule refines_cong)
    fix f
    show "only JobTitle ?t f @ only Company (?C Company) f
          @ only JobTitle (offered (first_h1 doc) 35 ''First H1'') f = ?C f"
      by (cases f) (simp_all add: only_def fallback_candidates_def)
  qed
  with e show ?thesis by simp
qed

lemma run_layers_refines:
  assumes "run_layers doc = Inr r"
  shows "r fld = resolve (candidates doc fld)"
proof -
  obtain r1 where r1: "detectFromStructuredData doc initial_results = Inr r1"
    using assms by (cases "detectFromStructuredData doc initial_results")
      (simp_all add: run_layers_def)
  obtain r2 where r2: "detectFromSemanticHTML doc r1 = Inr r2"
    and s2: "refines (\<lambda>f. site_candidates doc f @ generic_candidates doc f
               @ aria_candidates doc f) r1 r2"
    using detectFromSemanticHTML_refines by blast
  obtain r3 where r3: "detectFromTextAnalysis doc r2 = Inr r3"
    and s3: "refines (text_candidates doc) r2 r3"
    using detectFromTextAnalysis_refines by blast
  have r4: "applyFallbacks doc r3 = Inr r"
    using assms r1 r2 r3 by (simp add: run_layers_def)
  have "refines (candidates doc) initial_results r"
    by (rule refines_cong
          [OF refines_trans [OF detectFromStructuredData_refines [OF r1]
                refines_trans [OF s2 refines_trans [OF s3 applyFallbacks_refines [OF r4]]]]])
       (simp add: candidates_def)
  then show ?thesis
    by (simp add: refines_def resolve_def initial_results_def empty_result_def)
qed

section \<open>The result of a field is the merge of its matches\<close>

lemma merge1_blank: "blank (fst cand) \<Longrightarrow> merge1 cur cand = cur"
  by (cases cand) (simp add: merge1_def)

lemma foldl_merge1_filter:
  "foldl merge1 cur (filter (\<lambda>cand. \<not> blank (fst cand)) cs) = foldl merge1 cur cs"
  by (induction cs arbitrary: cur) (simp_all add: merge1_blank)

lemma merge1_conf:
  "\<not> blank (fst cand) \<Longrightarrow> fconfidence (merge1 cur cand) = max (fconfidence cur) (conf_of cand)"
  by (cases cand) (simp add: merge1_def conf_of_def max_def)

lemma foldl_merge1_conf:
  "\<forall>cand \<in> set cs. \<not> blank (fst cand) \<Longrightarrow>
   fconfidence (foldl merge1 cur cs) = Max (insert (fconfidence cur) (conf_of ` set cs))"
proof (induction cs arbitrary: cur)
  case Nil
  show ?case by simp
next
  case (Cons a cs)
  have "fconfidence (foldl merge1 (merge1 cur a) cs)
        = Max (insert (max (fconfidence cur) (conf_of a)) (conf_of ` set cs))"
    using Cons by (simp add: merge1_conf)
  also have "\<dots> = Max (insert (fconfidence cur) (insert (conf_of a) (conf_of ` set cs)))"
    by (cases "set cs = {}") (simp_all add: max.assoc)
  finally show ?case by simp
qed

lemma foldl_merge1_first_max:
  assumes "\<forall>cand \<in> set pre. \<not> blank (fst cand) \<and> conf_of cand < c"
    and "fconfidence cur < c" and "\<not> blank v"
    and "\<forall>cand \<in> set post. conf_of cand \<le> c"
  shows "foldl merge1 cur (pre @ (v, c, s) # post)
         = \<lparr>fvalue = normal_form v, fconfidence = c, fsource = s\<rparr>"
proof -
  have "fconfidence (foldl merge1 cur pre) = Max (insert (fconfidence cur) (conf_of ` set pre))"
    using assms(1) by (intro foldl_merge1_conf) simp
  also have "\<dots> < c" using assms(1,2) by (subst Max_less_iff) auto
  finally have "merge1 (foldl merge1 cur pre) (v, c, s)
                = \<lparr>fvalue = normal_form v, fconfidence = c, fsource = s\<rparr>"
    using assms(3) by (simp add: merge1_def)
  moreover have "foldl merge1 \<lparr>fvalue = normal_form v, fconfidence = c, fsource = s\<rparr> post
                 = \<lparr>fvalue = normal_form v, fconfidence = c, fsource = s\<rparr>"
    by (rule foldl_merge1_no_gain) (use assms(4) in \<open>simp add: conf_of_def\<close>)
  ultimately show ?thesis by simp
qed

lemma offered_conf: "cand \<in> set (offered v c src) \<Longrightarrow> conf_of cand = c"
  by (cases v) (auto simp: offered_def conf_of_def split: if_splits)

lemma selector_candidates_conf:
  "cand \<in> set (selector_candidates doc sels c src) \<Longrightarrow> conf_of cand = c"
  by (auto simp: selector_candidates_def selector_candidate_def conf_of_def
        split: query_result.splits if_splits)

lemma candidates_conf:
  assumes "cand \<in> set (candidates doc fld)"
  shows "conf_of cand \<in> levels"
proof -
  consider "cand \<in> set (json_ld_candidates doc fld)" | "cand \<in> set (open_graph_candidates doc fld)"
    | "cand \<in> set (site_candidates doc fld)" | "cand \<in> set (generic_candidates doc fld)"
    | "cand \<in> set (aria_candidates doc fld)" | "cand \<in> set (text_candidates doc fld)"
    | "cand \<in> set (fallback_candidates doc fld)"
    using assms by (auto simp: candidates_def)
  then show ?thesis
  proof cases
    case 1
    then show ?thesis
      by (auto simp: json_ld_candidates_def json_ld_offer_def conf_of_def levels_def
            split: option.splits sum.splits json.splits)
  next
    case 2
    then show ?thesis
      by (cases fld) (auto simp: open_graph_candidates_def Let_def levels_def dest: offered_conf)
  next
    case 3
    then show ?thesis
      by (auto simp: site_candidates_def levels_def split: option.splits if_splits
            dest: selector_candidates_conf)
  next
    case 4
    then show ?thesis
      by (cases fld) (auto simp: generic_candidates_def generic_confidence_def levels_def
            dest: selector_candidates_conf)
  next
    case 5
    then show ?thesis
      by (auto simp: aria_candidates_def aria_candidate_def conf_of_def levels_def split: if_splits)
  next
    case 6
    then show ?thesis
      by (cases fld) (auto simp: text_candidates_def levels_def dest: offered_conf)
  next
    case 7
    then show ?thesis
      by (cases fld; cases "page_title doc")
         (auto simp: fallback_candidates_def conf_of_def levels_def dest: offered_conf)
  qed
qed

lemma resolve_matches: "resolve (matches doc fld) = resolve (candidates doc fld)"
  by (simp add: resolve_def matches_def foldl_merge1_filter)

lemma matches_not_blank: "cand \<in> set (matches doc fld) \<Longrightarrow> \<not> blank (fst cand)"
  by (simp add: matches_def)

lemma matches_conf: "cand \<in> set (matches doc fld) \<Longrightarrow> conf_of cand \<in> levels"
  by (auto simp: matches_def intro: candidates_conf)

lemma detect_report: "detect doc = Inr out \<Longrightarrow> \<exists>r. run_layers doc = Inr r \<and> out = report r"
  by (cases "run_layers doc") (auto simp: detect_def)

lemma report_fields:
  "confidence (report r) fld = fconfidence (r fld)"
  "sources (report r) fld = fsource (r fld)"
  "value_of (report r) fld = fvalue (r fld)"
  by (cases fld; simp add: report_def value_of_def)+

lemma detect_resolve:
  assumes "detect doc = Inr out"
  shows "confidence out fld = fconfidence (resolve (matches doc fld))"
    and "sources out fld = fsource (resolve (matches doc fld))"
    and "value_of out fld = fvalue (resolve (matches doc fld))"
  using detect_report [OF assms] run_layers_refines
  by (auto simp: report_fields resolve_matches)

lemma detect_confidence_max:
  assumes "detect doc = Inr out"
  shows "confidence out fld = Max (insert 0 (conf_of ` set (matches doc fld)))"
  using foldl_merge1_conf [of "matches doc fld" empty_result] matches_not_blank
  by (simp add: detect_resolve [OF assms] resolve_def) (simp add: empty_result_def)

section \<open>The bound on the iterations is never reached\<close>

lemma ahead_refl: "ahead s s"
  by (auto simp: ahead_def intro: exI [of _ 0])

lemma ahead_trans: "ahead s y \<Longrightarrow> ahead y z \<Longrightarrow> ahead s z"
proof -
  assume "ahead s y" and "ahead y z"
  then obtain n m where n: "n \<le> length (rest s)" "rest y = drop n (rest s)" "pos y = pos s + n"
    and m: "m \<le> length (rest y)" "rest z = drop m (rest y)" "pos z = pos y + m"
    by (auto simp: ahead_def)
  have "n + m \<le> length (rest s)" using n m by simp
  moreover have "rest z = drop (n + m) (rest s)" using n m by (simp add: add.commute)
  moreover have "pos z = pos s + (n + m)" using n m by simp
  ultimately show "ahead s z" unfolding ahead_def by blast
qed

lemma ahead_step:
  "rest s = c # cs \<Longrightarrow> ahead s (s\<lparr>prev := p, rest := cs, pos := Suc (pos s)\<rparr>)"
  by (auto simp: ahead_def intro: exI [of _ 1])

lemma ahead_caps: "ahead s (y\<lparr>caps := f\<rparr>) = ahead s y"
  by (simp add: ahead_def)

lemma ahead_length: "ahead s y \<Longrightarrow> length (rest y) \<le> length (rest s)"
  by (auto simp: ahead_def)

lemma ahead_progress: "ahead s y \<Longrightarrow> pos y \<noteq> pos s \<Longrightarrow> length (rest y) < length (rest s)"
  by (auto simp: ahead_def)

lemma advancingD:
  "advancing m \<Longrightarrow> (\<And>y. ahead s y \<Longrightarrow> k y = k' y) \<Longrightarrow> m k s = m k' s"
  by (simp add: advancing_def)

lemma char_matcher_advancing: "advancing (char_matcher ic P)"
  by (auto simp: advancing_def char_matcher_def ahead_step split: list.splits)

lemma repeat_matcher_advancing:
  assumes "advancing m"
  shows "advancing (repeat_matcher fuel m mn mx greedy)"
proof (induction fuel arbitrary: mn mx)
  case 0
  show ?case by (simp add: advancing_def)
next
  case (Suc fuel)
  show ?case unfolding advancing_def
  proof (intro allI impI)
    fix k k' :: cont and s :: mstate
    assume eq: "\<forall>y. ahead s y \<longrightarrow> k y = k' y"
    let ?d = "\<lambda>k y. if mn = 0 \<and> pos y = pos s then None
               else repeat_matcher fuel m (mn - 1) (map_option (\<lambda>n. n - 1) mx) greedy k y"
    have ks: "k s = k' s" using eq ahead_refl by blast
    have "?d k y = ?d k' y" if "ahead s y" for y
    proof -
      have "repeat_matcher fuel m (mn - 1) (map_option (\<lambda>n. n - 1) mx) greedy k y
            = repeat_matcher fuel m (mn - 1) (map_option (\<lambda>n. n - 1) mx) greedy k' y"
        by (rule advancingD [OF Suc.IH]) (use eq that ahead_trans in blast)
      then show ?thesis by simp
    qed
    then have step: "m (?d k) s = m (?d k') s" by (rule advancingD [OF assms])
    note u1 = repeat_matcher.simps(2) [of fuel m mn mx greedy k s, unfolded Let_def]
    note u2 = repeat_matcher.simps(2) [of fuel m mn mx greedy k' s, unfolded Let_def]
    show "repeat_matcher (Suc fuel) m mn mx greedy k s
          = repeat_matcher (Suc fuel) m mn mx greedy k' s"
      unfolding u1 u2 by (simp only: step ks)
  qed
qed

lemma rx_advancing: "advancing (rx r ic)"
proof (induction r)
  case (Lit c)
  show ?case by (simp add: char_matcher_advancing)
next
  case (Cls P)
  show ?case by (simp add: char_matcher_advancing)
next
  case (Seq a b)
  show ?case unfolding advancing_def
  proof (intro allI impI)
    fix k k' :: cont and s :: mstate
    assume eq: "\<forall>y. ahead s y \<longrightarrow> k y = k' y"
    have "rx b ic k y = rx b ic k' y" if "ahead s y" for y
      by (rule advancingD [OF Seq.IH(2)]) (use eq that ahead_trans in blast)
    then have "rx a ic (rx b ic k) s = rx a ic (rx b ic k') s"
      by (rule advancingD [OF Seq.IH(1)])
    then show "rx (Seq a b) ic k s = rx (Seq a b) ic k' s" by simp
  qed
next
  case (Alt a b)
  show ?case unfolding advancing_def
  proof (intro allI impI)
    fix k k' :: cont and s :: mstate
    assume eq: "\<forall>y. ahead s y \<longrightarrow> k y = k' y"
    have "rx a ic k s = rx a ic k' s" "rx b ic k s = rx b ic k' s"
      using eq by (auto intro: advancingD [OF Alt.IH(1)] advancingD [OF Alt.IH(2)])
    then show "rx (Alt a b) ic k s = rx (Alt a b) ic k' s" by (simp cong: option.case_cong)
  qed
next
  case (Rep mn mx greedy r)
  show ?case unfolding advancing_def
  proof (intro allI impI)
    fix k k' :: cont and s :: mstate
    assume eq: "\<forall>y. ahead s y \<longrightarrow> k y = k' y"
    have "repeat_matcher (Suc (mn + length (rest s))) (rx r ic) mn mx greedy k s
          = repeat_matcher (Suc (mn + length (rest s))) (rx r ic) mn mx greedy k' s"
      by (rule advancingD [OF repeat_matcher_advancing [OF Rep.IH]]) (use eq in blast)
    then show "rx (Rep mn mx greedy r) ic k s = rx (Rep mn mx greedy r) ic k' s" by simp
  qed
next
  case (Grp n r)
  show ?case unfolding advancing_def
  proof (intro allI impI)
    fix k k' :: cont and s :: mstate
    assume eq: "\<forall>y. ahead s y \<longrightarrow> k y = k' y"
    have "rx r ic (\<lambda>y. k (y\<lparr>caps := (caps y)(n \<mapsto> (pos s, pos y))\<rparr>)) s
          = rx r ic (\<lambda>y. k' (y\<lparr>caps := (caps y)(n \<mapsto> (pos s, pos y))\<rparr>)) s"
      by (rule advancingD [OF Grp.IH]) (use eq in \<open>simp add: ahead_caps\<close>)
    then show "rx (Grp n r) ic k s = rx (Grp n r) ic k' s" by simp
  qed
qed (auto simp: advancing_def ahead_refl)

lemma repeat_matcher_fuel:
  assumes "advancing m"
  shows "mn + length (rest s) < fuel \<Longrightarrow>
         repeat_matcher (Suc fuel) m mn mx greedy k s = repeat_matcher fuel m mn mx greedy k s"
proof (induction fuel arbitrary: mn mx s)
  case 0
  then show ?case by simp
next
  case (Suc fuel)
  let ?d = "\<lambda>f y. if mn = 0 \<and> pos y = pos s then None
               else repeat_matcher f m (mn - 1) (map_option (\<lambda>n. n - 1) mx) greedy k y"
  have "?d (Suc fuel) y = ?d fuel y" if y: "ahead s y" for y
  proof (cases "mn = 0 \<and> pos y = pos s")
    case True
    then show ?thesis by simp
  next
    case False
    have "(mn - 1) + length (rest y) < fuel"
    proof (cases "mn = 0")
      case True
      with False have "pos y \<noteq> pos s" by simp
      from ahead_progress [OF y this] Suc.prems True show ?thesis by simp
    next
      case False
      with ahead_length [OF y] Suc.prems show ?thesis by simp
    qed
    from Suc.IH [OF this] False show ?thesis by (simp only: if_False)
  qed
  then have step: "m (?d (Suc fuel)) s = m (?d fuel) s" by (rule advancingD [OF assms])
  note u1 = repeat_matcher.simps(2) [of "Suc fuel" m mn mx greedy k s, unfolded Let_def]
  note u2 = repeat_matcher.simps(2) [of fuel m mn mx greedy k s, unfolded Let_def]
  show ?case unfolding u1 u2 by (simp only: step)
qed

lemma repeat_matcher_enough:
  assumes "advancing m" and "mn + length (rest s) < fuel"
  shows "repeat_matcher fuel m mn mx greedy k s
         = repeat_matcher (Suc (mn + length (rest s))) m mn mx greedy k s"
  using assms(2)
proof (induction fuel)
  case 0
  then show ?case by simp
next
  case (Suc fuel)
  show ?case
  proof (cases "mn + length (rest s) < fuel")
    case True
    with Suc.IH repeat_matcher_fuel [OF assms(1) True] show ?thesis by simp
  next
    case False
    with Suc.prems have "fuel = mn + length (rest s)" by simp
    then show ?thesis by simp
  qed
qed

lemma rx_repeat_any_fuel:
  "mn + length (rest s) < fuel \<Longrightarrow>
   rx (Rep mn mx greedy r) ic k s = repeat_matcher fuel (rx r ic) mn mx greedy k s"
  by (simp add: repeat_matcher_enough [OF rx_advancing])

section \<open>Every layer after the first returns\<close>

lemma repeat_matcher_from_cont:
  assumes m: "\<And>k s e. m k s = Some e \<Longrightarrow> \<exists>y. k y = Some e"
  shows "repeat_matcher fuel m mn mx greedy k s = Some e \<Longrightarrow> \<exists>y. k y = Some e"
proof (induction fuel arbitrary: mn mx s)
  case 0
  then show ?case by simp
next
  case (Suc fuel)
  let ?d = "\<lambda>y. if mn = 0 \<and> pos y = pos s then None
               else repeat_matcher fuel m (mn - 1) (map_option (\<lambda>n. n - 1) mx) greedy k y"
  have d: "\<exists>y. k y = Some e" if "m ?d s = Some e"
  proof -
    from m [OF that] obtain y where "?d y = Some e" by blast
    then have "repeat_matcher fuel m (mn - 1) (map_option (\<lambda>n. n - 1) mx) greedy k y = Some e"
      by (simp split: if_splits)
    then show ?thesis by (rule Suc.IH)
  qed
  from Suc.prems d show ?case
    by (auto simp: Let_def split: if_splits option.splits)
qed

lemma rx_from_cont: "rx r ic k s = Some e \<Longrightarrow> \<exists>y. k y = Some e"
proof (induction r arbitrary: k s e)
  case (Lit c)
  then show ?case by (auto simp: char_matcher_def split: list.splits if_splits)
next
  case (Cls P)
  then show ?case by (auto simp: char_matcher_def split: list.splits if_splits)
next
  case (Seq a b)
  from Seq.prems have "rx a ic (rx b ic k) s = Some e" by simp
  then obtain y where "rx b ic k y = Some e" using Seq.IH(1) by blast
  then show ?case by (rule Seq.IH(2))
next
  case (Alt a b)
  then show ?case by (auto split: option.splits)
next
  case (Rep mn mx greedy r)
  from Rep.prems
  have "repeat_matcher (Suc (mn + length (rest s))) (rx r ic) mn mx greedy k s = Some e"
    by simp
  then show ?case by (rule repeat_matcher_from_cont [rotated]) (rule Rep.IH)
next
  case (Grp n r)
  from Grp.prems
  have "rx r ic (\<lambda>y. k (y\<lparr>caps := (caps y)(n \<mapsto> (pos s, pos y))\<rparr>)) s = Some e" by simp
  from Grp.IH [OF this] show ?case by blast
qed (auto split: if_splits)

lemma search_from_rx:
  "search r ic s n = Some (i, e) \<Longrightarrow> \<exists>s'. rx r ic Some s' = Some e"
proof (induction n arbitrary: s)
  case 0
  then show ?case by simp
next
  case (Suc n)
  then show ?case by (auto split: option.splits list.splits)
qed

lemma page_title_returns: "\<exists>t. page_title doc = Inr t"
proof (cases "exec titlePattern False (title doc)")
  case None
  then show ?thesis by (simp add: page_title_def)
next
  case (Some m)
  obtain i e where m: "m = (i, e)" by (cases m)
  from Some obtain s where "rx titlePattern False Some s = Some e"
    using search_from_rx unfolding exec_def m by blast
  then have "rx (rx_plus (Cls (\<lambda>c. c \<noteq> CHR ''-'' \<and> c \<noteq> CHR ''|''))) False
               (\<lambda>y. Some (y\<lparr>caps := (caps y)(1 \<mapsto> (pos s, pos y))\<rparr>)) s = Some e"
    by (simp add: titlePattern_def split: if_splits)
  from rx_from_cont [OF this] have "caps e 1 \<noteq> None" by auto
  then show ?thesis using Some by (auto simp: page_title_def m match_group_def)
qed

lemma applyFallbacks_returns: "\<exists>r'. applyFallbacks doc r = Inr r'"
proof -
  obtain t where "page_title doc = Inr t" using page_title_returns by blast
  then show ?thesis
    by (simp add: applyFallbacks_def update_found_merge updateField_JStr)
qed

lemma detect_returns_iff:
  "(\<exists>out. detect doc = Inr out) \<longleftrightarrow> (\<exists>r. detectFromStructuredData doc initial_results = Inr r)"
proof
  assume "\<exists>out. detect doc = Inr out"
  then show "\<exists>r. detectFromStructuredData doc initial_results = Inr r"
    by (cases "detectFromStructuredData doc initial_results")
       (auto simp: detect_def run_layers_def)
next
  assume "\<exists>r. detectFromStructuredData doc initial_results = Inr r"
  then obtain r1 where r1: "detectFromStructuredData doc initial_results = Inr r1" by blast
  obtain r2 where r2: "detectFromSemanticHTML doc r1 = Inr r2"
    using detectFromSemanticHTML_refines by blast
  obtain r3 where r3: "detectFromTextAnalysis doc r2 = Inr r3"
    using detectFromTextAnalysis_refines by blast
  obtain r4 where r4: "applyFallbacks doc r3 = Inr r4"
    using applyFallbacks_returns by blast
  show "\<exists>out. detect doc = Inr out"
    by (simp add: detect_def run_layers_def r1 r2 r3 r4)
qed

lemma open_graph_returns:
  "\<exists>r'. sequence (update_below r JobTitle a 85 85 src) (\<lambda>r.
          sequence (update_below r Company b 85 85 src) (\<lambda>r.
          update_below r Description c 85 85 src)) = Inr r'"
  by (simp add: update_below_merge)

lemma detect_returns_without_posting:
  "findJobPostingSchema doc = None \<Longrightarrow> \<exists>out. detect doc = Inr out"
  unfolding detect_returns_iff
  using open_graph_returns by (simp add: detectFromStructuredData_def Let_def)


section \<open>The update rule\<close>

lemma acme_normal_form: "normal_form (''  Acme   Corp'' @ [CHR 0x0A]) = ''Acme Corp''"
  by code_simp

lemma acme_not_blank: "\<not> blank (''  Acme   Corp'' @ [CHR 0x0A])"
  by code_simp

text \<open>
  C3. The update primitive leaves the results as they are for a value that is falsy. For
  a candidate whose value is a string: a blank value (empty or white space only) leaves
  the results as they are; any other value is stored in
  normal form (trimmed, every run of white space inside it one space), with the
  candidate's confidence and source, exactly when the candidate's confidence is strictly
  greater than the field's current confidence, and otherwise the results stay as they
  are. The value of two spaces, \<open>Acme\<close>, three spaces, \<open>Corp\<close> and a line feed is stored
  as \<open>Acme Corp\<close>.
\<close>

theorem updateField_rule:
  "(\<not> truthy w \<longrightarrow> updateField results fld w conf src = Inr results)
   \<and> (blank v \<longrightarrow> updateField results fld (JStr v) conf src = Inr results)
   \<and> (\<not> blank v \<and> conf > fconfidence (results fld) \<longrightarrow>
        updateField results fld (JStr v) conf src
          = Inr (results(fld := \<lparr>fvalue = normal_form v, fconfidence = conf, fsource = src\<rparr>)))
   \<and> (\<not> blank v \<and> conf \<le> fconfidence (results fld) \<longrightarrow>
        updateField results fld (JStr v) conf src = Inr results)
   \<and> updateField initial_results Company (JStr (''  Acme   Corp'' @ [CHR 0x0A])) 95 ''JSON-LD Schema''
        = Inr (initial_results(Company :=
                 \<lparr>fvalue = ''Acme Corp'', fconfidence = 95, fsource = ''JSON-LD Schema''\<rparr>))"
proof (intro conjI impI)
  assume "\<not> truthy w"
  then show "updateField results fld w conf src = Inr results"
    by (simp add: updateField_def)
next
  assume "blank v"
  then show "updateField results fld (JStr v) conf src = Inr results"
    by (simp add: updateField_JStr merge1_def)
next
  assume "\<not> blank v \<and> conf > fconfidence (results fld)"
  then show "updateField results fld (JStr v) conf src
          = Inr (results(fld := \<lparr>fvalue = normal_form v, fconfidence = conf, fsource = src\<rparr>))"
    by (simp add: updateField_JStr merge1_def)
next
  assume "\<not> blank v \<and> conf \<le> fconfidence (results fld)"
  then show "updateField results fld (JStr v) conf src = Inr results"
    by (simp add: updateField_JStr merge1_def)
next
  show "updateField initial_results Company (JStr (''  Acme   Corp'' @ [CHR 0x0A])) 95 ''JSON-LD Schema''
        = Inr (initial_results(Company :=
                 \<lparr>fvalue = ''Acme Corp'', fconfidence = 95, fsource = ''JSON-LD Schema''\<rparr>))"
    using acme_normal_form acme_not_blank
    by (simp only: updateField_JStr merge1_def prod.case if_False)
       (simp add: initial_results_def)
qed

theorem updateField_rule_witness:
  "\<not> truthy JNull
   \<and> updateField initial_results Location JNull 60 ''Text Analysis'' = Inr initial_results
   \<and> blank ''  ''
   \<and> updateField initial_results Location (JStr ''  '') 60 ''Text Analysis'' = Inr initial_results
   \<and> \<not> blank ''Austin,  TX'' \<and> 60 > fconfidence (initial_results Location)
   \<and> updateField initial_results Location (JStr ''Austin,  TX'') 60 ''Text Analysis''
       = Inr (initial_results(Location :=
                \<lparr>fvalue = normal_form ''Austin,  TX'', fconfidence = 60, fsource = ''Text Analysis''\<rparr>))
   \<and> 0 \<le> fconfidence (initial_results Location)
   \<and> updateField initial_results Location (JStr ''Austin,  TX'') 0 ''Text Analysis'' = Inr initial_results"
proof -
  have b: "blank ''  ''" by code_simp
  have nb: "\<not> blank ''Austin,  TX''" by code_simp
  have c: "60 > fconfidence (initial_results Location)" by (simp add: initial_results_def)
  show ?thesis
    using updateField_rule [of JNull initial_results Location 60 "''Text Analysis''" "''  ''"]
      updateField_rule [of JNull initial_results Location 60 "''Text Analysis''" "''Austin,  TX''"]
      updateField_rule [of JNull initial_results Location 0 "''Text Analysis''" "''Austin,  TX''"]
      b nb c
    by simp
qed

section \<open>The priority merge\<close>

text \<open>
  C1. Whenever \<open>detect\<close> returns, every field's confidence is the maximum of the
  confidences of the matches that the layers produced for the field (0 when there is
  none), where a match is a candidate with a value that is not blank. Without a match the
  value and the source are empty. The value (in normal form) and the source are those of
  the first match that reaches the maximum: a match preceded only by matches of strictly
  smaller confidence and followed only by matches of at most its confidence. No update
  lowers the confidence of any field, and a candidate whose confidence equals the field's
  current confidence leaves the results as they are.
\<close>

theorem detect_priority_merge:
  assumes "detect doc = Inr out"
  shows "confidence out fld = Max (insert 0 (conf_of ` set (matches doc fld)))
    \<and> (matches doc fld = [] \<longrightarrow> value_of out fld = [] \<and> sources out fld = [])
    \<and> (\<forall>pre v c s post.
          matches doc fld = pre @ (v, c, s) # post
          \<and> (\<forall>cand \<in> set pre. conf_of cand < c) \<and> (\<forall>cand \<in> set post. conf_of cand \<le> c)
          \<longrightarrow> value_of out fld = normal_form v \<and> confidence out fld = c \<and> sources out fld = s)
    \<and> (\<forall>r f v c s r' g. updateField r f v c s = Inr r' \<longrightarrow> fconfidence (r g) \<le> fconfidence (r' g))
    \<and> (\<forall>r f v s r'. updateField r f v (fconfidence (r f)) s = Inr r' \<longrightarrow> r' = r)"
proof -
  have p1: "confidence out fld = Max (insert 0 (conf_of ` set (matches doc fld)))"
    by (rule detect_confidence_max [OF assms])
  have p2: "matches doc fld = [] \<longrightarrow> value_of out fld = [] \<and> sources out fld = []"
    by (simp add: detect_resolve [OF assms] resolve_def empty_result_def)
  have p3: "value_of out fld = normal_form v \<and> confidence out fld = c \<and> sources out fld = s"
    if a: "matches doc fld = pre @ (v, c, s) # post
          \<and> (\<forall>cand \<in> set pre. conf_of cand < c) \<and> (\<forall>cand \<in> set post. conf_of cand \<le> c)"
    for pre v c s post
  proof -
    from a have mem: "(v, c, s) \<in> set (matches doc fld)" by simp
    have "c \<in> levels" using matches_conf [OF mem] by (simp add: conf_of_def)
    then have pos: "fconfidence empty_result < c" by (auto simp: levels_def empty_result_def)
    have nb: "\<not> blank v" using matches_not_blank [OF mem] by simp
    have pre: "\<forall>cand \<in> set pre. \<not> blank (fst cand) \<and> conf_of cand < c"
      using a matches_not_blank [of _ doc fld] by auto
    have post: "\<forall>cand \<in> set post. conf_of cand \<le> c" using a by simp
    have "resolve (matches doc fld) = \<lparr>fvalue = normal_form v, fconfidence = c, fsource = s\<rparr>"
      using foldl_merge1_first_max [OF pre pos nb post] a by (simp add: resolve_def)
    then show ?thesis by (simp add: detect_resolve [OF assms])
  qed
  have p4: "fconfidence (r g) \<le> fconfidence (r' g)"
    if "updateField r f v c s = Inr r'" for r f v c s r' g
    using that by (auto simp: updateField_def Let_def split: if_splits json.splits)
  have p5: "r' = r" if "updateField r f v (fconfidence (r f)) s = Inr r'" for r f v s r'
    using that by (auto simp: updateField_def Let_def split: if_splits json.splits)
  show ?thesis using p1 p2 p3 p4 p5 by blast
qed

section \<open>The confidence levels and the fallback for the company\<close>

text \<open>
  C10. Whenever \<open>detect\<close> returns, the confidence of every field is one of 0, 35, 40,
  60, 70, 75, 80, 85 and 95. Hence a confidence that the form shows as medium is 40 or 60,
  and one that it shows as low is 35.
\<close>

theorem confidence_levels:
  assumes "detect doc = Inr out"
  shows "confidence out fld \<in> {0, 35, 40, 60, 70, 75, 80, 85, 95}
    \<and> (setConfidenceIndicator (confidence out fld) = Medium \<longrightarrow> confidence out fld \<in> {40, 60})
    \<and> (setConfidenceIndicator (confidence out fld) = Low \<longrightarrow> confidence out fld = 35)"
proof -
  let ?S = "insert 0 (conf_of ` set (matches doc fld))"
  have "Max ?S \<in> ?S" by (rule Max_in) simp_all
  moreover have "?S \<subseteq> insert 0 levels" using matches_conf by auto
  ultimately have "confidence out fld \<in> insert 0 levels"
    using detect_confidence_max [OF assms, of fld] by auto
  then show ?thesis by (auto simp: levels_def setConfidenceIndicator_def)
qed

text \<open>
  C9. The fallback layer always returns. It leaves a company result of confidence 40 or
  more as it is; and when it changes the company result, the confidence before was below
  40 and the new result is the company derived from the host name, in normal form, with
  confidence 35 and source \<open>Domain Name\<close>.
\<close>

theorem company_fallback_guard:
  "\<exists>r'. applyFallbacks doc r = Inr r'
     \<and> (fconfidence (r Company) \<ge> 40 \<longrightarrow> r' Company = r Company)
     \<and> (r' Company \<noteq> r Company \<longrightarrow>
          fconfidence (r Company) < 40
          \<and> r' Company = \<lparr>fvalue = normal_form (domain_company (hostname doc)),
                           fconfidence = 35, fsource = ''Domain Name''\<rparr>)"
proof -
  obtain r' where r': "applyFallbacks doc r = Inr r'" using applyFallbacks_returns by blast
  have "r' Company = merge1 (r Company) (domain_company (hostname doc), 35, ''Domain Name'')"
    using applyFallbacks_refines [OF r'] by (simp add: refines_def fallback_candidates_def)
  then show ?thesis using r' by (auto simp: merge1_def split: if_splits)
qed

section \<open>The search for a job title\<close>

lemma find_first:
  "xs = pre @ h # post \<Longrightarrow> \<forall>x \<in> set pre. \<not> P x \<Longrightarrow> P h \<Longrightarrow> find P xs = Some h"
  by (induction pre arbitrary: xs) auto

lemma find_none: "\<forall>x \<in> set xs. \<not> P x \<Longrightarrow> find P xs = None"
  by (simp add: find_None_iff)

lemma find_over_append:
  "find P (xs @ ys) = (case find P xs of Some x \<Rightarrow> Some x | None \<Rightarrow> find P ys)"
  by (induction xs) auto

text \<open>
  C7, with the bound on the length that the code has. The search for a job title returns
  the text of the first \<^verbatim>\<open>h1\<close> of the document whose trimmed text contains a keyword. If no
  \<^verbatim>\<open>h1\<close> does, it returns the text of the first heading it was given that is a title
  heading, and nothing if there is none; such a heading of the document is an \<^verbatim>\<open>h2\<close> or an
  \<^verbatim>\<open>h3\<close>. A title heading is one whose trimmed text is longer than 5 and shorter than 100
  characters and contains a keyword, and whose font size is above 18.
\<close>

theorem findJobTitle_order:
  "(\<forall>pre h post.
      filter (\<lambda>h. tag h = H1) (headings doc) = pre @ h # post
      \<and> (\<forall>x \<in> set pre. \<not> containsJobKeyword (trim (textContent x)) jobKeywords)
      \<and> containsJobKeyword (trim (textContent h)) jobKeywords
      \<longrightarrow> findJobTitle doc hs text = Some (trim (textContent h)))
   \<and> ((\<forall>x \<in> set (filter (\<lambda>h. tag h = H1) (headings doc)).
          \<not> containsJobKeyword (trim (textContent x)) jobKeywords) \<longrightarrow>
        (\<forall>pre h post.
           hs = pre @ h # post \<and> (\<forall>x \<in> set pre. \<not> title_heading x) \<and> title_heading h
           \<longrightarrow> findJobTitle doc hs text = Some (trim (textContent h)))
        \<and> ((\<forall>x \<in> set hs. \<not> title_heading x) \<longrightarrow> findJobTitle doc hs text = None)
        \<and> (\<forall>h \<in> set (headings doc). title_heading h \<longrightarrow> tag h = H2 \<or> tag h = H3))
   \<and> (\<forall>h. title_heading h \<longleftrightarrow>
          5 < length (trim (textContent h)) \<and> length (trim (textContent h)) < 100
          \<and> containsJobKeyword (trim (textContent h)) jobKeywords
          \<and> (\<exists>px. fontSize h = Some px \<and> px > 18))"
proof -
  let ?h1s = "filter (\<lambda>h. tag h = H1) (headings doc)"
  have a: "findJobTitle doc hs text = Some (trim (textContent h))"
    if "?h1s = pre @ h # post
        \<and> (\<forall>x \<in> set pre. \<not> containsJobKeyword (trim (textContent x)) jobKeywords)
        \<and> containsJobKeyword (trim (textContent h)) jobKeywords" for pre h post
  proof -
    have "find title_h1 ?h1s = Some h"
      by (rule find_first [of _ pre h post]) (use that in \<open>auto simp: title_h1_def\<close>)
    then show ?thesis by (simp add: findJobTitle_def Let_def)
  qed
  have b: "title_heading h \<longleftrightarrow>
          5 < length (trim (textContent h)) \<and> length (trim (textContent h)) < 100
          \<and> containsJobKeyword (trim (textContent h)) jobKeywords
          \<and> (\<exists>px. fontSize h = Some px \<and> px > 18)" for h
    by (auto simp: title_heading_def Let_def above_def split: option.splits)
  have c: "(\<forall>pre h post.
           hs = pre @ h # post \<and> (\<forall>x \<in> set pre. \<not> title_heading x) \<and> title_heading h
           \<longrightarrow> findJobTitle doc hs text = Some (trim (textContent h)))
        \<and> ((\<forall>x \<in> set hs. \<not> title_heading x) \<longrightarrow> findJobTitle doc hs text = None)
        \<and> (\<forall>h \<in> set (headings doc). title_heading h \<longrightarrow> tag h = H2 \<or> tag h = H3)"
    if none: "\<forall>x \<in> set ?h1s. \<not> containsJobKeyword (trim (textContent x)) jobKeywords"
  proof -
    have n: "find title_h1 ?h1s = None"
      by (rule find_none) (use none in \<open>simp add: title_h1_def\<close>)
    have c1: "findJobTitle doc hs text = Some (trim (textContent h))"
      if "hs = pre @ h # post \<and> (\<forall>x \<in> set pre. \<not> title_heading x) \<and> title_heading h"
      for pre h post
    proof -
      have "find title_heading hs = Some h"
        by (rule find_first [of _ pre h post]) (use that in auto)
      then show ?thesis using n by (simp add: findJobTitle_def Let_def)
    qed
    have c2: "findJobTitle doc hs text = None" if "\<forall>x \<in> set hs. \<not> title_heading x"
      using n find_none [OF that] by (simp add: findJobTitle_def Let_def)
    have c3: "tag h = H2 \<or> tag h = H3" if "h \<in> set (headings doc)" "title_heading h" for h
    proof (cases "tag h")
      case H1
      with that(1) have "h \<in> set ?h1s" by simp
      with none have "\<not> containsJobKeyword (trim (textContent h)) jobKeywords" by blast
      with that(2) show ?thesis by (simp add: b)
    qed simp_all
    show ?thesis using c1 c2 c3 by blast
  qed
  show ?thesis using a b c by blast
qed

theorem short_heading_counterexample:
  "headings lead_page
     = [\<lparr>tag = H2, textContent = ''Lead'', fontSize = Some 20\<rparr>,
        \<lparr>tag = H2, textContent = ''Senior Engineer'', fontSize = Some 24\<rparr>]
   \<and> containsJobKeyword (trim ''Lead'') jobKeywords \<and> above (Some 20) 18
   \<and> findJobTitle lead_page (headings lead_page) (innerText lead_page) = Some ''Senior Engineer''
   \<and> findJobTitle lead_page (headings lead_page) (innerText lead_page) \<noteq> Some ''Lead''"
  by code_simp

section \<open>The search for the job posting\<close>

lemma first_job_posting_typed:
  "first_job_posting items = Inr (Some item) \<Longrightarrow> is_job_posting item \<and> item \<in> set items"
  by (induction items) (auto simp: is_job_posting_def split: sum.splits if_splits)

lemma scan_scripts_typed:
  "scan_scripts scripts = Some item \<Longrightarrow> is_job_posting item \<and> item \<in> set (entries scripts)"
proof (induction scripts rule: scan_scripts.induct)
  case 1
  then show ?case by simp
next
  case (2 scripts)
  then show ?case by (simp add: entries_def)
next
  case (3 data scripts)
  then show ?case
    using first_job_posting_typed [of "items_of data" item]
    by (auto simp: entries_def split: sum.splits option.splits)
qed

lemma first_job_posting_find:
  "JNull \<notin> set items \<Longrightarrow> first_job_posting items = Inr (find is_job_posting items)"
proof (induction items)
  case Nil
  show ?case by simp
next
  case (Cons item items)
  then have "item \<noteq> JNull" by auto
  then obtain t where "get_prop item ''@type'' = Inr t" by (cases item) auto
  with Cons show ?case by (auto simp: is_job_posting_def)
qed

lemma scan_scripts_find:
  "JNull \<notin> set (entries scripts) \<Longrightarrow> scan_scripts scripts = find is_job_posting (entries scripts)"
proof (induction scripts rule: scan_scripts.induct)
  case 1
  show ?case by (simp add: entries_def)
next
  case (2 scripts)
  then show ?case by (simp add: entries_def)
next
  case (3 data scripts)
  then have a: "JNull \<notin> set (items_of data)" and b: "JNull \<notin> set (entries scripts)"
    by (auto simp: entries_def)
  have e: "entries (Some data # scripts) = items_of data @ entries scripts"
    by (simp add: entries_def)
  show ?case
    using 3 b first_job_posting_find [OF a]
    by (cases "find is_job_posting (items_of data)") (simp_all add: e find_over_append)
qed

lemma findJobPostingSchema_first:
  "JNull \<notin> set (entries (ld_json doc)) \<Longrightarrow>
   findJobPostingSchema doc = find is_job_posting (entries (ld_json doc))"
  by (simp add: findJobPostingSchema_def scan_scripts_find)

lemma findJobPostingSchema_typed:
  "findJobPostingSchema doc = Some item \<Longrightarrow>
   is_job_posting item \<and> item \<in> set (entries (ld_json doc))"
  by (simp add: findJobPostingSchema_def scan_scripts_typed)

lemma no_job_posting_no_candidate:
  "\<forall>item \<in> set (entries (ld_json doc)). \<not> is_job_posting item \<Longrightarrow> json_ld_candidates doc fld = []"
  using findJobPostingSchema_typed [of doc]
  by (cases "findJobPostingSchema doc") (auto simp: json_ld_candidates_def)

text \<open>
  C5 on a page whose only script holds the array of \<^verbatim>\<open>null\<close> and a job posting with the
  title \<open>Engineer\<close>: the posting is the first entry of type \<open>JobPosting\<close>, yet the search
  finds no posting and the job title stays empty. Reading the type of \<^verbatim>\<open>null\<close> raises,
  and the \<^verbatim>\<open>catch\<close> leaves the whole script.
\<close>

theorem null_entry_hides_posting:
  "ld_json null_entry_page = [Some (JArr [JNull, engineer_posting])]
   \<and> is_job_posting engineer_posting
   \<and> findJobPostingSchema null_entry_page = None
   \<and> map_sum id jobTitle (detect null_entry_page) = Inr []"
  by code_simp

section \<open>A value that is not a string\<close>



text \<open>
  C8 on a page whose job posting has an address with no locality, no region, and a
  country that is an object: the location handed to the update primitive is that
  object, which has no \<^verbatim>\<open>trim\<close>, and \<open>detect\<close> raises.
\<close>

theorem detect_raises_on_country_object: "detect country_page = Inl TypeError"
proof -
  have "isl (detect country_page)" by code_simp
  then obtain e where "detect country_page = Inl e" by (cases "detect country_page") auto
  then show ?thesis by (cases e) simp
qed

section \<open>Pages with a single signal\<close>






















lemma returns_without_scripts: "ld_json doc = [] \<Longrightarrow> \<exists>out. detect doc = Inr out"
  by (rule detect_returns_without_posting) (simp add: findJobPostingSchema_def)

subsection \<open>The page title and the host name\<close>


lemma fallback_values:
  "domain_company ''jobs.acme.com'' = ''Jobs''"
  "normal_form ''Jobs'' = ''Jobs''" "\<not> blank ''Jobs''"
  "normal_form ''DevOps Lead'' = ''DevOps Lead''" "\<not> blank ''DevOps Lead''"
  by code_simp+



subsection \<open>The sentence about Acme Inc\<close>







section \<open>The theorems at concrete pages\<close>

lemma h1_page_matches:
  "matches h1_page JobTitle
     = [] @ (''Senior Engineer'', 60, ''Text Analysis'') # [(''About us'', 35, ''First H1'')]"
  "matches h1_page Company = []"
  by code_simp+

theorem detect_priority_merge_witness:
  "\<exists>out. detect h1_page = Inr out
     \<and> matches h1_page JobTitle
         = [] @ (''Senior Engineer'', 60, ''Text Analysis'') # [(''About us'', 35, ''First H1'')]
     \<and> confidence out JobTitle = Max (insert 0 (conf_of ` set (matches h1_page JobTitle)))
     \<and> value_of out JobTitle = normal_form ''Senior Engineer''
     \<and> confidence out JobTitle = 60 \<and> sources out JobTitle = ''Text Analysis''
     \<and> matches h1_page Company = [] \<and> value_of out Company = [] \<and> sources out Company = []
     \<and> (\<exists>r'. updateField initial_results Company (JStr ''Acme'') 60 ''Text Analysis'' = Inr r'
            \<and> fconfidence (initial_results Company) \<le> fconfidence (r' Company))
     \<and> (\<exists>r'. updateField initial_results Company (JStr ''Acme'')
               (fconfidence (initial_results Company)) ''Text Analysis'' = Inr r'
            \<and> r' = initial_results)"
proof -
  have "ld_json h1_page = []" by (simp add: h1_page_def blank_page_def)
  then obtain out where out: "detect h1_page = Inr out"
    using returns_without_scripts by blast
  note t = detect_priority_merge [OF out, of JobTitle]
  note c = detect_priority_merge [OF out, of Company]
  have conf: "\<forall>cand \<in> set [(''About us'', 35, ''First H1'')]. conf_of cand \<le> (60::nat)"
    by (simp add: conf_of_def)
  from t have "\<forall>pre v c s post.
          matches h1_page JobTitle = pre @ (v, c, s) # post
          \<and> (\<forall>cand \<in> set pre. conf_of cand < c) \<and> (\<forall>cand \<in> set post. conf_of cand \<le> c)
          \<longrightarrow> value_of out JobTitle = normal_form v \<and> confidence out JobTitle = c
              \<and> sources out JobTitle = s"
    by blast
  from this [rule_format, of "[]" "''Senior Engineer''" 60 "''Text Analysis''"
      "[(''About us'', 35, ''First H1'')]"] h1_page_matches(1) conf
  have j: "value_of out JobTitle = normal_form ''Senior Engineer''
     \<and> confidence out JobTitle = 60 \<and> sources out JobTitle = ''Text Analysis''"
    by simp
  from c h1_page_matches(2) have co: "value_of out Company = [] \<and> sources out Company = []"
    by blast
  from t have m: "confidence out JobTitle = Max (insert 0 (conf_of ` set (matches h1_page JobTitle)))"
    by blast
  obtain r1 where r1: "updateField initial_results Company (JStr ''Acme'') 60 ''Text Analysis'' = Inr r1"
    by (simp add: updateField_JStr)
  obtain r2 where r2: "updateField initial_results Company (JStr ''Acme'')
               (fconfidence (initial_results Company)) ''Text Analysis'' = Inr r2"
    by (simp add: updateField_JStr)
  from t r1 have u1: "fconfidence (initial_results Company) \<le> fconfidence (r1 Company)" by blast
  from t r2 have u2: "r2 = initial_results" by blast
  show ?thesis using out h1_page_matches j co m r1 r2 u1 u2 by blast
qed

lemma fallback_page_confidences:
  "map_sum id (\<lambda>d. map (confidence d) [Company, JobTitle, Location, Description])
     (detect fallback_page) = Inr [35, 40, 0, 0]"
  by code_simp

theorem confidence_levels_witness:
  "\<exists>out. detect fallback_page = Inr out
     \<and> confidence out JobTitle \<in> {0, 35, 40, 60, 70, 75, 80, 85, 95}
     \<and> setConfidenceIndicator (confidence out JobTitle) = Medium
     \<and> confidence out JobTitle \<in> {40, 60}
     \<and> setConfidenceIndicator (confidence out Company) = Low
     \<and> confidence out Company = 35"
proof -
  have "ld_json fallback_page = []" by (simp add: fallback_page_def blank_page_def)
  then obtain out where out: "detect fallback_page = Inr out"
    using returns_without_scripts by blast
  with fallback_page_confidences
  have v: "confidence out JobTitle = 40" "confidence out Company = 35" by simp_all
  have i: "setConfidenceIndicator (confidence out JobTitle) = Medium"
    "setConfidenceIndicator (confidence out Company) = Low"
    by (simp_all add: v setConfidenceIndicator_def)
  show ?thesis
    using out i confidence_levels [OF out, of JobTitle] confidence_levels [OF out, of Company]
    by blast
qed

theorem company_fallback_guard_witness:
  "40 \<le> fconfidence (strong_company Company)
   \<and> (\<exists>r'. applyFallbacks fallback_page strong_company = Inr r'
          \<and> r' Company = strong_company Company)
   \<and> (\<exists>r'. applyFallbacks fallback_page initial_results = Inr r'
          \<and> r' Company \<noteq> initial_results Company
          \<and> fconfidence (initial_results Company) < 40
          \<and> r' Company = \<lparr>fvalue = ''Jobs'', fconfidence = 35, fsource = ''Domain Name''\<rparr>)"
proof -
  have s: "40 \<le> fconfidence (strong_company Company)" by (simp add: strong_company_def)
  obtain r1 where r1: "applyFallbacks fallback_page strong_company = Inr r1"
    "fconfidence (strong_company Company) \<ge> 40 \<longrightarrow> r1 Company = strong_company Company"
    using company_fallback_guard [of fallback_page strong_company] by blast
  obtain r2 where r2: "applyFallbacks fallback_page initial_results = Inr r2"
    "r2 Company \<noteq> initial_results Company \<longrightarrow>
       fconfidence (initial_results Company) < 40
       \<and> r2 Company = \<lparr>fvalue = normal_form (domain_company (hostname fallback_page)),
                        fconfidence = 35, fsource = ''Domain Name''\<rparr>"
    using company_fallback_guard [of fallback_page initial_results] by blast
  have h: "hostname fallback_page = ''jobs.acme.com''"
    by (simp add: fallback_page_def blank_page_def)
  have "r2 Company = merge1 (initial_results Company)
                       (domain_company (hostname fallback_page), 35, ''Domain Name'')"
    using applyFallbacks_refines [OF r2(1)] by (simp add: refines_def fallback_candidates_def)
  then have ne: "r2 Company \<noteq> initial_results Company"
    by (simp add: h fallback_values merge1_def initial_results_def)
  show ?thesis using s r1 r2 ne by (auto simp: h fallback_values)
qed








lemma title_facts:
  "\<not> containsJobKeyword (trim ''About us'') jobKeywords"
  "containsJobKeyword (trim ''Senior Engineer'') jobKeywords"
  "\<not> title_heading \<lparr>tag = H2, textContent = ''Lead'', fontSize = Some 20\<rparr>"
  "title_heading \<lparr>tag = H2, textContent = ''Senior Engineer'', fontSize = Some 24\<rparr>"
  by code_simp+

theorem findJobTitle_order_witness:
  "filter (\<lambda>h. tag h = H1) (headings h1_page)
     = [\<lparr>tag = H1, textContent = ''About us'', fontSize = Some 32\<rparr>]
       @ \<lparr>tag = H1, textContent = ''Senior Engineer'', fontSize = Some 32\<rparr> # []
   \<and> \<not> containsJobKeyword (trim ''About us'') jobKeywords
   \<and> containsJobKeyword (trim ''Senior Engineer'') jobKeywords
   \<and> findJobTitle h1_page (headings h1_page) (innerText h1_page) = Some ''Senior Engineer''
   \<and> filter (\<lambda>h. tag h = H1) (headings lead_page) = []
   \<and> headings lead_page
       = [\<lparr>tag = H2, textContent = ''Lead'', fontSize = Some 20\<rparr>]
         @ \<lparr>tag = H2, textContent = ''Senior Engineer'', fontSize = Some 24\<rparr> # []
   \<and> \<not> title_heading \<lparr>tag = H2, textContent = ''Lead'', fontSize = Some 20\<rparr>
   \<and> title_heading \<lparr>tag = H2, textContent = ''Senior Engineer'', fontSize = Some 24\<rparr>
   \<and> findJobTitle lead_page (headings lead_page) (innerText lead_page) = Some ''Senior Engineer''"
proof -
  let ?about = "\<lparr>tag = H1, textContent = ''About us'', fontSize = Some 32\<rparr>"
  let ?senior = "\<lparr>tag = H1, textContent = ''Senior Engineer'', fontSize = Some 32\<rparr>"
  let ?lead = "\<lparr>tag = H2, textContent = ''Lead'', fontSize = Some 20\<rparr>"
  let ?senior2 = "\<lparr>tag = H2, textContent = ''Senior Engineer'', fontSize = Some 24\<rparr>"
  have f1: "filter (\<lambda>h. tag h = H1) (headings h1_page) = [?about] @ ?senior # []"
    by (simp add: h1_page_def blank_page_def)
  have f2: "filter (\<lambda>h. tag h = H1) (headings lead_page) = []"
    "headings lead_page = [?lead] @ ?senior2 # []"
    by (simp_all add: lead_page_def blank_page_def)
  note a = findJobTitle_order [of h1_page "headings h1_page" "innerText h1_page"]
  note b = findJobTitle_order [of lead_page "headings lead_page" "innerText lead_page"]
  from a have "\<forall>pre h post.
      filter (\<lambda>h. tag h = H1) (headings h1_page) = pre @ h # post
      \<and> (\<forall>x \<in> set pre. \<not> containsJobKeyword (trim (textContent x)) jobKeywords)
      \<and> containsJobKeyword (trim (textContent h)) jobKeywords
      \<longrightarrow> findJobTitle h1_page (headings h1_page) (innerText h1_page) = Some (trim (textContent h))"
    by blast
  from this [rule_format, of "[?about]" ?senior "[]"] f1 title_facts
  have r1: "findJobTitle h1_page (headings h1_page) (innerText h1_page) = Some ''Senior Engineer''"
    by (simp add: trim_def is_ws_def code_def)
  from b f2(1) have "\<forall>pre h post.
           headings lead_page = pre @ h # post \<and> (\<forall>x \<in> set pre. \<not> title_heading x) \<and> title_heading h
           \<longrightarrow> findJobTitle lead_page (headings lead_page) (innerText lead_page)
               = Some (trim (textContent h))"
    by simp
  from this [rule_format, of "[?lead]" ?senior2 "[]"] f2(2) title_facts
  have r2: "findJobTitle lead_page (headings lead_page) (innerText lead_page) = Some ''Senior Engineer''"
    by (simp add: trim_def is_ws_def code_def)
  show ?thesis using f1 f2 title_facts r1 r2 by blast
qed

end
